theory Spec2Isabelle
  imports Main "HOL-Library.Sublist"
begin

section \<open>Stock screener front end: file intake, upload and result table\<close>

text \<open>
  The development embeds \<^verbatim>\<open>src/static/js/script.js\<close>, the script the page loads
  (\<^verbatim>\<open>static/js/script.js\<close>). The repository also carries a second copy of the script
  with a different intake and upload routine (in \<^verbatim>\<open>src/unnamed/part_000\<close>); its
  \<^verbatim>\<open>processFile\<close> and \<^verbatim>\<open>doUpload\<close> are embedded under the names
  \<open>processFile_alt\<close> and \<open>doUpload_alt\<close>, to record where the two differ.

  A handler is a function on the state of the page. \<open>doUpload\<close> is given in two parts,
  before and after its \<^verbatim>\<open>await fetch\<close>, so that what another handler does while the
  request is in flight can be stated; the other \<^verbatim>\<open>await\<close>s of a handler are not split.
\<close>

subsection \<open>JavaScript values\<close>

text \<open>
  A value of the parsed JSON response. A number is carried by the text that JavaScript's
  string conversion gives it (the formatting of floating-point numbers is not modelled);
  \<open>JOther\<close> is an object or an array, again with its string conversion, or \<open>None\<close>
  when it has none: converting the object \<^verbatim>\<open>{"toString": 0}\<close> to a string throws a
  TypeError.
\<close>

datatype jsval =
  JUndefined | JNull | JBool bool | JNum string | JStr string | JOther "string option"

text \<open>Truthiness, as \<^verbatim>\<open>!r.error\<close> and \<^verbatim>\<open>filter(r => r.error)\<close> read it.\<close>

fun truthy :: "jsval \<Rightarrow> bool" where
  "truthy JUndefined = False"
| "truthy JNull = False"
| "truthy (JBool b) = b"
| "truthy (JNum s) = (s \<noteq> ''0'' \<and> s \<noteq> ''NaN'')"
| "truthy (JStr s) = (s \<noteq> [])"
| "truthy (JOther s) = True"

text \<open>
  The string conversion of a template literal's \<^verbatim>\<open>${...}\<close>; \<open>None\<close> when it throws.
\<close>

fun toString :: "jsval \<Rightarrow> string option" where
  "toString JUndefined = Some ''undefined''"
| "toString JNull = Some ''null''"
| "toString (JBool b) = Some (if b then ''true'' else ''false'')"
| "toString (JNum s) = Some s"
| "toString (JStr s) = Some s"
| "toString (JOther c) = c"

subsection \<open>Strings and arrays\<close>

text \<open>\<^verbatim>\<open>s.endsWith(t)\<close>.\<close>

definition endsWith :: "string \<Rightarrow> string \<Rightarrow> bool" where
  "endsWith s t = (length t \<le> length s \<and> drop (length s - length t) s = t)"

text \<open>
  \<^verbatim>\<open>s.split(/[/\\]/)\<close>: the segments between the separators, an empty string giving one
  empty segment. \<open>isSep\<close> is the character class \<^verbatim>\<open>[/\\]\<close>.
\<close>

definition isSep :: "char \<Rightarrow> bool" where
  "isSep c = (c = CHR ''/'' \<or> c = CHR 0x5C)"

fun split :: "string \<Rightarrow> string list" where
  "split [] = [[]]"
| "split (c # cs) =
     (if isSep c then [] # split cs
      else (case split cs of [] \<Rightarrow> [[c]] | seg # segs \<Rightarrow> (c # seg) # segs))"

text \<open>\<^verbatim>\<open>.pop()\<close> on the array \<open>split\<close> returns: its last element.\<close>

definition pop :: "string list \<Rightarrow> string" where
  "pop segs = last segs"

text \<open>
  \<^verbatim>\<open>[...new Set(xs)]\<close>: a Set keeps the first occurrence of each value, in insertion
  order.
\<close>

definition Set_add :: "'a list \<Rightarrow> 'a \<Rightarrow> 'a list" where
  "Set_add acc x = (if x \<in> set acc then acc else acc @ [x])"

definition new_Set :: "'a list \<Rightarrow> 'a list" where
  "new_Set xs = foldl Set_add [] xs"

text \<open>\<^verbatim>\<open>xs.join(sep)\<close>.\<close>

fun join :: "string \<Rightarrow> string list \<Rightarrow> string" where
  "join sep [] = []"
| "join sep [x] = x"
| "join sep (x # y # ys) = x @ sep @ join sep (y # ys)"

subsection \<open>Files, response items and the page state\<close>

text \<open>A \<^verbatim>\<open>File\<close>: its name, its declared media type and its content.\<close>

record jsfile =
  name :: string
  type :: string
  bytes :: string

text \<open>
  One element of the response's \<^verbatim>\<open>results\<close> array, by the properties the script reads.
  A property the element does not have is \<open>JUndefined\<close>; an element that is a number, a
  string or a boolean has none of them. The element \<^verbatim>\<open>null\<close> is \<open>None\<close> in the list of
  results.
\<close>

record item =
  file_name :: jsval
  chart_link :: jsval
  error :: jsval
  std_dev :: jsval
  large_changes :: jsval
  avg_daily_return :: jsval
  annual_volatility :: jsval
  sharpe_ratio :: jsval
  max_drawdown :: jsval
  positive_days :: jsval
  moving_average :: jsval
  bollinger_pctB :: jsval
  rsi :: jsval
  volume_spikes :: jsval

text \<open>
  What \<^verbatim>\<open>res.json()\<close> and the destructuring \<^verbatim>\<open>const { results } = ...\<close> give: the body
  is not JSON (the promise rejects), it is JSON with no array under \<^verbatim>\<open>results\<close>
  (\<^verbatim>\<open>results.filter\<close> throws a TypeError), or it holds the array.
\<close>

datatype json_body = NotJson | NoResultsArray | Results "item option list"

record response =
  ok :: bool
  status :: nat
  json :: json_body

text \<open>\<^verbatim>\<open>await fetch(...)\<close>: the promise rejects (no response), or resolves to a response.\<close>

datatype fetch_outcome = Rejected | Response response

text \<open>
  The globals and the parts of the page the script writes: the queue \<^verbatim>\<open>files\<close>, the
  rows of \<^verbatim>\<open>dataTable\<close> (each row by the HTML assigned to its \<^verbatim>\<open>innerHTML\<close>),
  \<^verbatim>\<open>resultsContainer.style.display\<close>, \<^verbatim>\<open>fileInput.value\<close>, the messages passed to
  \<^verbatim>\<open>alert\<close> so far, and the bodies of the POST requests so far (the files appended to
  each \<^verbatim>\<open>FormData\<close>, in order).
\<close>

record state =
  files :: "jsfile list"
  rows :: "string list"
  display :: string
  fileInput_value :: string
  alerts :: "string list"
  requests :: "jsfile list list"

definition alert :: "string \<Rightarrow> state \<Rightarrow> state" where
  "alert msg s = s\<lparr>alerts := alerts s @ [msg]\<rparr>"

text \<open>
  An \<^verbatim>\<open>async\<close> function either returns or throws (its promise rejects): \<open>Inr\<close> is
  the state at the return, \<open>Inl\<close> the state at the throw. \<open>outcome\<close> is the state either
  way.
\<close>

fun outcome :: "state + state \<Rightarrow> state" where
  "outcome (Inl s) = s"
| "outcome (Inr s) = s"

subsection \<open>The result table\<close>

text \<open>\<^verbatim>\<open>updateResultsVisibility\<close> (script.js, lines 169-172).\<close>

definition updateResultsVisibility :: "state \<Rightarrow> state" where
  "updateResultsVisibility s =
     (let hasRows = length (rows s) > 0
      in s\<lparr>display := (if hasRows then ''block'' else ''none'')\<rparr>)"


text \<open>
  DataTables is a library the page loads. It reports a row it cannot read, such as a row
  whose HTML gives fewer cells than the table has columns, through \<^verbatim>\<open>alert\<close>. What it
  reports is taken as a parameter: the messages \<^verbatim>\<open>row.add\<close> raises on a table with the
  given rows for the HTML of the new row, and the messages \<^verbatim>\<open>draw\<close> raises on a table
  with the given rows.
\<close>

record datatables =
  row_add_alerts :: "string list \<Rightarrow> string \<Rightarrow> string list"
  draw_alerts :: "string list \<Rightarrow> string list"

definition row_add :: "datatables \<Rightarrow> string \<Rightarrow> state \<Rightarrow> state" where
  "row_add dt h s =
     s\<lparr>rows := rows s @ [h], alerts := alerts s @ row_add_alerts dt (rows s) h\<rparr>"

definition draw :: "datatables \<Rightarrow> state \<Rightarrow> state" where
  "draw dt s = s\<lparr>alerts := alerts s @ draw_alerts dt (rows s)\<rparr>"

text \<open>
  The first cell of a row (script.js, lines 128-130 and the \<^verbatim>\<open>${link}\<close> of line 135).
  With a chart link the two conversions run in line 129; without one \<^verbatim>\<open>link\<close> is
  \<^verbatim>\<open>r.file_name\<close> itself and is converted in line 135. Nothing happens in between.
\<close>

definition link :: "item \<Rightarrow> string option" where
  \<open>link r =
     (if chart_link r \<noteq> JStr ''N/A''
      then (case toString (chart_link r) of
              None \<Rightarrow> None
            | Some href \<Rightarrow>
                (case toString (file_name r) of
                   None \<Rightarrow> None
                 | Some label \<Rightarrow>
                     Some (''<a href="'' @ href @ ''" target="_blank">'' @ label @ ''</a>'')))
      else toString (file_name r))\<close>

text \<open>
  One line of the template literal of lines 134-148: a line break, twelve spaces and a
  \<^verbatim>\<open>td\<close> element around the interpolated text.
\<close>

definition td :: "string \<Rightarrow> string" where
  "td v = ''\<newline>            <td>'' @ v @ ''</td>''"

text \<open>
  The last line of the template: the cell of the remove button (its label is the
  character U+274C, three bytes in UTF-8), then a line break and eight spaces.
\<close>

definition action_td :: string where
  \<open>action_td =
     ''\<newline>            <td class="action-col"><button class="remove-btn">''
       @ [CHR 0xE2, CHR 0x9D, CHR 0x8C] @ ''</button></td>\<newline>        ''\<close>

text \<open>The twelve \<^verbatim>\<open>${...}\<close> of the template, in the order they are converted.\<close>

definition interpolated :: "item \<Rightarrow> string option list" where
  "interpolated r =
     [link r, toString (std_dev r), toString (large_changes r),
      toString (avg_daily_return r), toString (annual_volatility r),
      toString (sharpe_ratio r), toString (max_drawdown r),
      toString (positive_days r), toString (moving_average r),
      toString (bollinger_pctB r), toString (rsi r), toString (volume_spikes r)]"

text \<open>
  The string assigned to \<^verbatim>\<open>tr.innerHTML\<close> (script.js, lines 134-148); \<open>None\<close> when one
  of the conversions throws.
\<close>

definition tr_innerHTML :: "item \<Rightarrow> string option" where
  "tr_innerHTML r =
     (case those (interpolated r) of
        None \<Rightarrow> None
      | Some vs \<Rightarrow> Some (concat (map td vs) @ action_td))"

text \<open>
  The \<^verbatim>\<open>forEach\<close> of \<^verbatim>\<open>appendResults\<close> (script.js, lines 127-151). An element
  \<^verbatim>\<open>null\<close> (\<open>None\<close>) makes \<^verbatim>\<open>r.chart_link\<close> throw, and a conversion may throw: the
  rows of the elements before it have been added by then.
\<close>

fun add_rows :: "datatables \<Rightarrow> item option list \<Rightarrow> state \<Rightarrow> state + state" where
  "add_rows dt [] s = Inr s"
| "add_rows dt (None # rs) s = Inl s"
| "add_rows dt (Some r # rs) s =
     (case tr_innerHTML r of
        None \<Rightarrow> Inl s
      | Some h \<Rightarrow> add_rows dt rs (row_add dt h s))"

text \<open>
  \<^verbatim>\<open>appendResults\<close> (script.js, lines 126-154): after the loop the table is drawn and
  the visibility recomputed; a throw in the loop skips both.
\<close>

definition appendResults :: "datatables \<Rightarrow> item option list \<Rightarrow> state \<Rightarrow> state + state" where
  "appendResults dt results s =
     (case add_rows dt results s of
        Inl s' \<Rightarrow> Inl s'
      | Inr s' \<Rightarrow> Inr (updateResultsVisibility (draw dt s')))"



subsection \<open>Upload\<close>

text \<open>
  The name of a failed file (script.js, lines 108-110):
  \<^verbatim>\<open>r.file_name.split(/[/\\]/).pop()\<close> for each error item. Where \<^verbatim>\<open>file_name\<close> is not a
  string the call throws a TypeError (\<open>None\<close>).
\<close>

definition failed_name :: "item \<Rightarrow> string option" where
  "failed_name r = (case file_name r of JStr n \<Rightarrow> Some (pop (split n)) | _ \<Rightarrow> None)"

text \<open>The message of line 115.\<close>

definition failed_alert :: "string list \<Rightarrow> string" where
  "failed_alert failedFiles =
     ''The following file'' @ (if length failedFiles > 1 then ''s'' else '''')
       @ '' failed to upload:\<newline>\<newline>'' @ join ''\<newline>'' failedFiles"

text \<open>
  The body of the \<^verbatim>\<open>try\<close> block after \<^verbatim>\<open>fetch\<close> (script.js, lines 93-119), on the
  outcome of the request. The filters of lines 99-100 leave no \<^verbatim>\<open>null\<close> in
  \<^verbatim>\<open>validResults\<close>: on a \<^verbatim>\<open>null\<close> element \<^verbatim>\<open>r.error\<close> has thrown.
\<close>

definition upload_try :: "datatables \<Rightarrow> fetch_outcome \<Rightarrow> state \<Rightarrow> state + state" where
  "upload_try dt out s =
     (case out of
        Rejected \<Rightarrow> Inl s
      | Response res \<Rightarrow>
          if \<not> ok res then Inl s
          else (case json res of
             NotJson \<Rightarrow> Inl s
           | NoResultsArray \<Rightarrow> Inl s
           | Results results \<Rightarrow>
               (case those results of
                  None \<Rightarrow> Inl s
                | Some rs \<Rightarrow>
                    let validResults = filter (\<lambda>r. \<not> truthy (error r)) rs;
                        errorResults = filter (\<lambda>r. truthy (error r)) rs
                    in (case (if length validResults > 0
                              then appendResults dt (map Some validResults) s
                              else Inr s) of
                          Inl s1 \<Rightarrow> Inl s1
                        | Inr s1 \<Rightarrow>
                            if length errorResults > 0
                            then (case those (map failed_name errorResults) of
                                    None \<Rightarrow> Inl s1
                                  | Some names \<Rightarrow>
                                      let failedFiles = new_Set names;
                                          failedFilesMsg = join ''\<newline>'' failedFiles;
                                          s2 = (if length failedFilesMsg > 0
                                                then alert (failed_alert failedFiles) s1
                                                else s1)
                                      in Inr (s2\<lparr>files := []\<rparr>))
                            else Inr (s1\<lparr>files := []\<rparr>)))))"

definition upload_failed :: string where
  "upload_failed =
     ''Could not upload files. Make sure you are uploading valid files (no folders)''"

text \<open>
  \<^verbatim>\<open>doUpload\<close> (script.js, lines 81-124), for a non-empty queue, in two parts.
  \<open>doUpload_send\<close> is lines 83-91, up to the \<^verbatim>\<open>await\<close>: the request leaves with the
  files of the queue. \<open>doUpload_settle\<close> is lines 93-123, run when the promise of
  \<^verbatim>\<open>fetch\<close> settles, on the state the page has then.
\<close>

definition doUpload_send :: "state \<Rightarrow> state" where
  "doUpload_send s = s\<lparr>requests := requests s @ [files s]\<rparr>"

definition doUpload_settle :: "datatables \<Rightarrow> fetch_outcome \<Rightarrow> state \<Rightarrow> state" where
  "doUpload_settle dt out s =
     (case upload_try dt out s of
        Inr s' \<Rightarrow> s'
      | Inl s' \<Rightarrow> (alert upload_failed s')\<lparr>files := []\<rparr>)"

text \<open>
  \<^verbatim>\<open>doUpload\<close> with nothing else running while the request is in flight. \<open>fetch\<close>
  stands for the network and the service: the outcome of the POST whose body holds the
  given files.
\<close>

definition doUpload :: "datatables \<Rightarrow> (jsfile list \<Rightarrow> fetch_outcome) \<Rightarrow> state \<Rightarrow> state" where
  "doUpload dt fetch s =
     (if length (files s) = 0 then s
      else doUpload_settle dt (fetch (files s)) (doUpload_send s))"

subsection \<open>Intake\<close>

text \<open>
  JSZip is a library the page loads. \<open>loadAsync\<close> stands for
  \<^verbatim>\<open>file.arrayBuffer()\<close> followed by \<^verbatim>\<open>JSZip.loadAsync(buf)\<close>: \<open>None\<close> when the promise
  rejects (the content is not a readable archive), otherwise the entries of
  \<^verbatim>\<open>zip.files\<close> in the order of \<^verbatim>\<open>Object.keys\<close>, each with what
  \<^verbatim>\<open>async('blob')\<close> gives: the entry's content, or \<open>None\<close> when that promise rejects.
\<close>

type_synonym unzip = "string \<Rightarrow> (string \<times> string option) list option"

text \<open>
  The loop over the entries (script.js, lines 66-70); the flag is
  \<^verbatim>\<open>validFileFound\<close>.
\<close>

fun push_entries :: "(string \<times> string option) list \<Rightarrow> state \<times> bool \<Rightarrow> state + state \<times> bool" where
  "push_entries [] (s, validFileFound) = Inr (s, validFileFound)"
| "push_entries ((n, None) # es) (s, validFileFound) = Inl s"
| "push_entries ((n, Some blob) # es) (s, validFileFound) =
     push_entries es
       (s\<lparr>files := files s @ [\<lparr>name = n, type = ''text/csv'', bytes = blob\<rparr>]\<rparr>, True)"

text \<open>The message of line 73.\<close>

definition no_files :: "string \<Rightarrow> string" where
  \<open>no_files n = ''ZIP file "'' @ n @ ''" contains no files.''\<close>

text \<open>\<^verbatim>\<open>processFile\<close> (script.js, lines 60-78).\<close>

definition processFile :: "unzip \<Rightarrow> jsfile \<Rightarrow> state \<Rightarrow> state + state" where
  \<open>processFile loadAsync file s =
     (if endsWith (name file) ''.zip''
      then (case loadAsync (bytes file) of
              None \<Rightarrow> Inl s
            | Some entries \<Rightarrow>
                (case push_entries entries (s, False) of
                   Inl s' \<Rightarrow> Inl s'
                 | Inr (s', validFileFound) \<Rightarrow>
                     Inr (if \<not> validFileFound
                          then alert (no_files (name file)) s'
                          else s')))
      else Inr (s\<lparr>files := files s @ [file]\<rparr>))\<close>

text \<open>
  \<^verbatim>\<open>for (let f of ...) await processFile(f)\<close> (script.js, lines 49 and 55): a throw of
  \<open>processFile\<close> leaves the loop and the handler.
\<close>

fun processFiles :: "unzip \<Rightarrow> jsfile list \<Rightarrow> state \<Rightarrow> state + state" where
  "processFiles loadAsync [] s = Inr s"
| "processFiles loadAsync (f # fs) s =
     (case processFile loadAsync f s of
        Inl s' \<Rightarrow> Inl s'
      | Inr s' \<Rightarrow> processFiles loadAsync fs s')"

text \<open>
  The \<^verbatim>\<open>drop\<close> handler of the drop zone and the \<^verbatim>\<open>change\<close> handler of the file input
  (script.js, lines 47-58): the same three statements, on \<^verbatim>\<open>dt.files\<close> and on
  \<^verbatim>\<open>fileInput.files\<close>. \<open>Inl\<close>: the handler's promise rejects, and nothing catches it.
\<close>

definition on_files ::
  "datatables \<Rightarrow> unzip \<Rightarrow> (jsfile list \<Rightarrow> fetch_outcome) \<Rightarrow> jsfile list \<Rightarrow> state
     \<Rightarrow> state + state" where
  "on_files dt loadAsync fetch fs s =
     (case processFiles loadAsync fs s of
        Inl s' \<Rightarrow> Inl s'
      | Inr s' \<Rightarrow> Inr (doUpload dt fetch (s'\<lparr>fileInput_value := ''''\<rparr>)))"




text \<open>The page as it loads: nothing queued, an empty table, the inline style unset.\<close>

definition init :: state where
  "init = \<lparr>files = [], rows = [], display = '''', fileInput_value = '''', alerts = [],
           requests = []\<rparr>"

subsection \<open>The second copy of the script\<close>

text \<open>
  \<^verbatim>\<open>processFile\<close> of \<^verbatim>\<open>src/unnamed/part_000\<close> (lines 60-75): entries of a bundle are
  kept when their name ends in \<^verbatim>\<open>.csv\<close>, a plain file likewise, and anything else is
  reported.
\<close>

fun push_entries_alt :: "(string \<times> string option) list \<Rightarrow> state \<Rightarrow> state + state" where
  "push_entries_alt [] s = Inr s"
| "push_entries_alt ((n, b) # es) s =
     (if endsWith n ''.csv''
      then (case b of
              None \<Rightarrow> Inl s
            | Some blob \<Rightarrow>
                push_entries_alt es
                  (s\<lparr>files := files s @ [\<lparr>name = n, type = ''text/csv'', bytes = blob\<rparr>]\<rparr>))
      else push_entries_alt es s)"

definition unsupported :: "string \<Rightarrow> string" where
  "unsupported n = ''Unsupported type: '' @ n"

definition processFile_alt :: "unzip \<Rightarrow> jsfile \<Rightarrow> state \<Rightarrow> state + state" where
  "processFile_alt loadAsync file s =
     (if endsWith (name file) ''.zip''
      then (case loadAsync (bytes file) of
              None \<Rightarrow> Inl s
            | Some entries \<Rightarrow> push_entries_alt entries s)
      else if endsWith (name file) ''.csv'' then Inr (s\<lparr>files := files s @ [file]\<rparr>)
      else Inr (alert (unsupported (name file)) s))"

fun processFiles_alt :: "unzip \<Rightarrow> jsfile list \<Rightarrow> state \<Rightarrow> state + state" where
  "processFiles_alt loadAsync [] s = Inr s"
| "processFiles_alt loadAsync (f # fs) s =
     (case processFile_alt loadAsync f s of
        Inl s' \<Rightarrow> Inl s'
      | Inr s' \<Rightarrow> processFiles_alt loadAsync fs s')"

text \<open>
  \<^verbatim>\<open>doUpload\<close> of \<^verbatim>\<open>src/unnamed/part_000\<close> (lines 78-95): the status of the response is
  not read, \<^verbatim>\<open>appendResults\<close> (the same function in both copies) receives the array of
  the response as it is, and the \<^verbatim>\<open>catch\<close> block shows the error and leaves
  \<^verbatim>\<open>files\<close> as it is. \<open>err\<close> is the string conversion of the value thrown.
\<close>

definition upload_try_alt :: "datatables \<Rightarrow> fetch_outcome \<Rightarrow> state \<Rightarrow> state + state" where
  "upload_try_alt dt out s =
     (case out of
        Rejected \<Rightarrow> Inl s
      | Response res \<Rightarrow>
          (case json res of
             NotJson \<Rightarrow> Inl s
           | NoResultsArray \<Rightarrow> Inl s
           | Results results \<Rightarrow>
               (case appendResults dt results s of
                  Inl s' \<Rightarrow> Inl s'
                | Inr s' \<Rightarrow> Inr (s'\<lparr>files := []\<rparr>))))"

definition doUpload_alt ::
  "datatables \<Rightarrow> (jsfile list \<Rightarrow> fetch_outcome) \<Rightarrow> string \<Rightarrow> state \<Rightarrow> state" where
  "doUpload_alt dt fetch err s =
     (if length (files s) = 0 then s
      else (case upload_try_alt dt (fetch (files s))
                   (s\<lparr>requests := requests s @ [files s]\<rparr>) of
              Inr s' \<Rightarrow> s'
            | Inl s' \<Rightarrow> alert (''Upload error: '' @ err) s'))"

subsection \<open>Notions used in the statements\<close>

text \<open>
  The files the loop of \<open>push_entries\<close> appends for the entries of one bundle: one per
  entry, up to the first entry whose content cannot be read.
\<close>

fun extracted :: "(string \<times> string option) list \<Rightarrow> jsfile list" where
  "extracted [] = []"
| "extracted ((n, None) # es) = []"
| "extracted ((n, Some blob) # es) =
     \<lparr>name = n, type = ''text/csv'', bytes = blob\<rparr> # extracted es"

definition from_bundle :: "unzip \<Rightarrow> jsfile \<Rightarrow> jsfile list" where
  "from_bundle loadAsync z =
     (case loadAsync (bytes z) of None \<Rightarrow> [] | Some es \<Rightarrow> extracted es)"

text \<open>
  A file that comes from a batch of dropped or selected items: one of the items, or an
  entry of one of its bundles.
\<close>

definition from_batch :: "unzip \<Rightarrow> jsfile list \<Rightarrow> jsfile \<Rightarrow> bool" where
  "from_batch loadAsync fs f =
     (f \<in> set fs \<or>
      (\<exists>z\<in>set fs. endsWith (name z) ''.zip'' \<and> f \<in> set (from_bundle loadAsync z)))"

text \<open>The elements of a response that get a row: those of a parsed success response that
  carry no error indicator.\<close>

definition row_items :: "fetch_outcome \<Rightarrow> item list" where
  "row_items out =
     (case out of
        Rejected \<Rightarrow> []
      | Response res \<Rightarrow>
          if \<not> ok res then []
          else (case json res of
                  Results results \<Rightarrow>
                    (case those results of
                       None \<Rightarrow> []
                     | Some rs \<Rightarrow> filter (\<lambda>r. \<not> truthy (error r)) rs)
                | _ \<Rightarrow> []))"

text \<open>
  The rows the loop of \<open>add_rows\<close> adds for a list of elements: one per element, up to the
  first element whose row cannot be built.
\<close>

fun rendered :: "item list \<Rightarrow> string list" where
  "rendered [] = []"
| "rendered (r # rs) = (case tr_innerHTML r of None \<Rightarrow> [] | Some h \<Rightarrow> h # rendered rs)"

text \<open>
  What DataTables reports while rows are appended to a table: for each call of
  \<^verbatim>\<open>row.add\<close>, and for the \<^verbatim>\<open>draw\<close> that follows the last one.
\<close>

fun row_add_reports :: "datatables \<Rightarrow> string list \<Rightarrow> string list \<Rightarrow> string list" where
  "row_add_reports dt table [] = []"
| "row_add_reports dt table (h # hs) =
     row_add_alerts dt table h @ row_add_reports dt (table @ [h]) hs"

definition append_reports :: "datatables \<Rightarrow> string list \<Rightarrow> string list \<Rightarrow> string list" where
  "append_reports dt table hs =
     (if hs = [] then [] else row_add_reports dt table hs @ draw_alerts dt (table @ hs))"


text \<open>
  The text a value is read as where it stands in a template literal: a string is its own
  text, a number is carried with its text, \<^verbatim>\<open>undefined\<close>, \<^verbatim>\<open>null\<close> and the booleans
  read as their names, and an object or array has the text of its conversion, when it has
  one.
\<close>

definition text_of :: "jsval \<Rightarrow> string \<Rightarrow> bool" where
  "text_of v t =
     (v = JStr t \<or> v = JNum t \<or> v = JOther (Some t)
      \<or> (v = JUndefined \<and> t = ''undefined'') \<or> (v = JNull \<and> t = ''null'')
      \<or> (v = JBool True \<and> t = ''true'') \<or> (v = JBool False \<and> t = ''false''))"

text \<open>Sample inputs.\<close>

definition a_csv :: jsfile where
  "a_csv = \<lparr>name = ''a.csv'', type = ''text/csv'', bytes = ''20240101,1,2,0,1,5''\<rparr>"

definition notes_txt :: jsfile where
  "notes_txt = \<lparr>name = ''notes.txt'', type = ''text/plain'', bytes = ''hello''\<rparr>"



definition b_zip :: jsfile where
  "b_zip = \<lparr>name = ''b.zip'', type = ''application/zip'', bytes = ''PK-one''\<rparr>"

definition empty_zip :: jsfile where
  "empty_zip = \<lparr>name = ''empty.zip'', type = ''application/zip'', bytes = ''PK-none''\<rparr>"

definition dir_zip :: jsfile where
  "dir_zip = \<lparr>name = ''dir.zip'', type = ''application/zip'', bytes = ''PK-dir''\<rparr>"

text \<open>
  An unzipper for the samples: an archive of one entry, an archive with no entry, an
  archive that holds one folder and no file, and content that is no archive.
\<close>

definition unzip0 :: unzip where
  "unzip0 b = (if b = ''PK-one'' then Some [(''x.dat'', Some ''1,2'')]
               else if b = ''PK-none'' then Some []
               else if b = ''PK-dir'' then Some [(''dir/'', Some [])]
               else None)"

text \<open>A DataTables that reports nothing.\<close>

definition quiet :: datatables where
  "quiet = \<lparr>row_add_alerts = (\<lambda>table h. []), draw_alerts = (\<lambda>table. [])\<rparr>"

definition no_results :: "jsfile list \<Rightarrow> fetch_outcome" where
  "no_results body = Response \<lparr>ok = True, status = 200, json = Results []\<rparr>"

definition blank :: item where
  "blank = \<lparr>file_name = JUndefined, chart_link = JUndefined, error = JUndefined,
             std_dev = JUndefined, large_changes = JUndefined, avg_daily_return = JUndefined,
             annual_volatility = JUndefined, sharpe_ratio = JUndefined,
             max_drawdown = JUndefined, positive_days = JUndefined,
             moving_average = JUndefined, bollinger_pctB = JUndefined, rsi = JUndefined,
             volume_spikes = JUndefined\<rparr>"

definition ok_item :: item where
  "ok_item = blank\<lparr>file_name := JStr ''a.csv'', chart_link := JStr ''N/A'',
                    std_dev := JNum ''1.5''\<rparr>"

definition err_item :: item where
  "err_item = blank\<lparr>file_name := JStr ''uploads/b.csv'', error := JStr ''no rows''\<rparr>"

definition dir_item :: item where
  "dir_item = blank\<lparr>file_name := JStr ''uploads/'', error := JBool True\<rparr>"

definition odd_item :: item where
  "odd_item = blank\<lparr>file_name := JStr ''c.csv'', chart_link := JStr ''N/A'',
                     std_dev := JOther None\<rparr>"

definition linked_item :: item where
  "linked_item = \<lparr>file_name = JStr ''a&b.csv'', chart_link = JStr ''javascript:alert(1)'',
       error = JUndefined, std_dev = JNum ''1.5'', large_changes = JNum ''0'',
       avg_daily_return = JNum ''0.1'', annual_volatility = JNum ''23.8'',
       sharpe_ratio = JNum ''1.1'', max_drawdown = JNum ''-12.5'',
       positive_days = JNum ''55'', moving_average = JNum ''174'',
       bollinger_pctB = JStr ''N/A'', rsi = JNum ''61.2'', volume_spikes = JNum ''3''\<rparr>"

definition markup_item :: item where
  "markup_item = linked_item\<lparr>file_name := JStr ''<img src=x onerror=alert(1)>'',
                              chart_link := JStr ''N/A''\<rparr>"

definition mixed :: "jsfile list \<Rightarrow> fetch_outcome" where
  "mixed body = Response \<lparr>ok = True, status = 200, json = Results [Some ok_item, Some err_item]\<rparr>"

definition mixed_dir :: "jsfile list \<Rightarrow> fetch_outcome" where
  "mixed_dir body = Response \<lparr>ok = True, status = 200, json = Results [Some ok_item, Some dir_item]\<rparr>"

definition ok_then_odd :: "jsfile list \<Rightarrow> fetch_outcome" where
  "ok_then_odd body =
     Response \<lparr>ok = True, status = 200, json = Results [Some ok_item, Some odd_item]\<rparr>"

definition odd_dir :: "jsfile list \<Rightarrow> fetch_outcome" where
  "odd_dir body =
     Response \<lparr>ok = True, status = 200, json = Results [Some odd_item, Some dir_item]\<rparr>"

section \<open>Properties\<close>

subsection \<open>Intake leaves the table and the requests alone\<close>

lemma push_entries_state:
  "push_entries es (s, v) = r \<Longrightarrow>
     (case r of Inl s' \<Rightarrow> s' | Inr (s', v') \<Rightarrow> s') = s\<lparr>files := files s @ extracted es\<rparr>"
proof (induction es "(s, v)" arbitrary: s v r rule: push_entries.induct)
  case (1 s validFileFound)
  then show ?case by auto
next
  case (2 n es s validFileFound)
  then show ?case by auto
next
  case (3 n blob es s validFileFound)
  from 3(1)[OF refl] 3(2) show ?case by (auto split: sum.splits)
qed

lemma push_entries_flag:
  "push_entries es (s, v) = Inr (s', v') \<Longrightarrow> v' = (v \<or> es \<noteq> [])"
  by (induction es "(s, v)" arbitrary: s v rule: push_entries.induct) auto

lemma from_batch_head: "from_batch loadAsync [f] g \<Longrightarrow> from_batch loadAsync (f # fs) g"
  by (auto simp: from_batch_def)

lemma from_batch_tail: "from_batch loadAsync fs g \<Longrightarrow> from_batch loadAsync (f # fs) g"
  by (auto simp: from_batch_def)

text \<open>
  Whether it returns or throws, \<open>processFile\<close> only appends to the queue and to the
  alerts, and what it appends to the queue comes from its item.
\<close>

lemma processFile_state:
  "\<exists>new al. outcome (processFile loadAsync f s) = s\<lparr>files := files s @ new, alerts := alerts s @ al\<rparr>
      \<and> (\<forall>g\<in>set new. from_batch loadAsync [f] g)"
proof (cases "endsWith (name f) ''.zip''")
  case False
  then have "outcome (processFile loadAsync f s) = s\<lparr>files := files s @ [f], alerts := alerts s @ []\<rparr>"
    by (simp add: processFile_def)
  moreover have "\<forall>g\<in>set [f]. from_batch loadAsync [f] g" by (simp add: from_batch_def)
  ultimately show ?thesis by blast
next
  case zip: True
  show ?thesis
  proof (cases "loadAsync (bytes f)")
    case None
    with zip have "outcome (processFile loadAsync f s) = s\<lparr>files := files s @ [], alerts := alerts s @ []\<rparr>"
      by (simp add: processFile_def)
    then show ?thesis by (metis empty_iff list.set(1))
  next
    case (Some es)
    have st: "(case push_entries es (s, False) of Inl s' \<Rightarrow> s' | Inr (s', v') \<Rightarrow> s') = s\<lparr>files := files s @ extracted es\<rparr>"
      by (rule push_entries_state[OF refl])
    have fb: "\<forall>g\<in>set (extracted es). from_batch loadAsync [f] g"
      using zip Some by (simp add: from_batch_def from_bundle_def)
    have "\<exists>al. outcome (processFile loadAsync f s) = s\<lparr>files := files s @ extracted es, alerts := alerts s @ al\<rparr>"
    proof (cases "push_entries es (s, False)")
      case (Inl s')
      with st have "s' = s\<lparr>files := files s @ extracted es\<rparr>" by simp
      with Inl zip Some have "outcome (processFile loadAsync f s) = s\<lparr>files := files s @ extracted es, alerts := alerts s @ []\<rparr>"
        by (simp add: processFile_def)
      then show ?thesis by blast
    next
      case (Inr p)
      obtain s' v' where p: "p = (s', v')" by (cases p)
      with Inr st have s': "s' = s\<lparr>files := files s @ extracted es\<rparr>" by simp
      show ?thesis
      proof (cases v')
        case True
        with Inr p s' zip Some have "outcome (processFile loadAsync f s) = s\<lparr>files := files s @ extracted es, alerts := alerts s @ []\<rparr>"
          by (simp add: processFile_def)
        then show ?thesis by blast
      next
        case False
        with Inr p s' zip Some have "outcome (processFile loadAsync f s) = s\<lparr>files := files s @ extracted es, alerts := alerts s @ [no_files (name f)]\<rparr>"
          by (simp add: processFile_def alert_def)
        then show ?thesis by blast
      qed
    qed
    with fb show ?thesis by blast
  qed
qed

lemma processFiles_state:
  "\<exists>new al. outcome (processFiles loadAsync fs s) = s\<lparr>files := files s @ new, alerts := alerts s @ al\<rparr>
      \<and> (\<forall>g\<in>set new. from_batch loadAsync fs g)"
proof (induction fs arbitrary: s)
  case Nil
  have "outcome (processFiles loadAsync [] s) = s\<lparr>files := files s @ [], alerts := alerts s @ []\<rparr>"
    by simp
  then show ?case by (metis empty_iff list.set(1))
next
  case (Cons f fs)
  obtain new al where o: "outcome (processFile loadAsync f s) = s\<lparr>files := files s @ new, alerts := alerts s @ al\<rparr>"
    and fb: "\<forall>g\<in>set new. from_batch loadAsync [f] g"
    using processFile_state by blast
  show ?case
  proof (cases "processFile loadAsync f s")
    case (Inl s')
    with o have "outcome (processFiles loadAsync (f # fs) s) = s\<lparr>files := files s @ new, alerts := alerts s @ al\<rparr>"
      by simp
    moreover from fb have "\<forall>g\<in>set new. from_batch loadAsync (f # fs) g"
      by (blast intro: from_batch_head)
    ultimately show ?thesis by blast
  next
    case (Inr s')
    with o have s': "s' = s\<lparr>files := files s @ new, alerts := alerts s @ al\<rparr>" by simp
    obtain new' al' where o': "outcome (processFiles loadAsync fs s') = s'\<lparr>files := files s' @ new', alerts := alerts s' @ al'\<rparr>"
      and fb': "\<forall>g\<in>set new'. from_batch loadAsync fs g"
      using Cons.IH by blast
    from Inr o' s' have "outcome (processFiles loadAsync (f # fs) s) = s\<lparr>files := files s @ (new @ new'), alerts := alerts s @ (al @ al')\<rparr>"
      by simp
    moreover from fb fb' have "\<forall>g\<in>set (new @ new'). from_batch loadAsync (f # fs) g"
      by (auto intro: from_batch_head from_batch_tail)
    ultimately show ?thesis by blast
  qed
qed



lemma processFile_zip_files:
  assumes "endsWith (name f) ''.zip''" and "loadAsync (bytes f) = Some es"
  shows "files (outcome (processFile loadAsync f s)) = files s @ extracted es"
proof -
  have st: "(case push_entries es (s, False) of Inl s' \<Rightarrow> s' | Inr (s', v') \<Rightarrow> s')
                = s\<lparr>files := files s @ extracted es\<rparr>"
    by (rule push_entries_state[OF refl])
  show ?thesis
  proof (cases "push_entries es (s, False)")
    case (Inl s')
    with st assms show ?thesis by (simp add: processFile_def)
  next
    case (Inr p)
    obtain s' v' where "p = (s', v')" by (cases p)
    with Inr st assms show ?thesis by (simp add: processFile_def alert_def)
  qed
qed

lemma extracted_type: "g \<in> set (extracted es) \<Longrightarrow> type g = ''text/csv''"
  by (induction es rule: extracted.induct) auto

lemma processFiles_plain:
  "\<forall>f\<in>set fs. \<not> endsWith (name f) ''.zip'' \<Longrightarrow>
     processFiles loadAsync fs s = Inr (s\<lparr>files := files s @ fs\<rparr>)"
  by (induction fs arbitrary: s) (auto simp: processFile_def)

lemma processFile_entries_quiet:
  assumes "endsWith (name f) ''.zip''" and "loadAsync (bytes f) = Some es" and "es \<noteq> []"
  shows "alerts (outcome (processFile loadAsync f s)) = alerts s"
proof -
  have st: "(case push_entries es (s, False) of Inl s' \<Rightarrow> s' | Inr (s', v') \<Rightarrow> s')
                = s\<lparr>files := files s @ extracted es\<rparr>"
    by (rule push_entries_state[OF refl])
  show ?thesis
  proof (cases "push_entries es (s, False)")
    case (Inl s')
    with st assms show ?thesis by (simp add: processFile_def)
  next
    case (Inr p)
    obtain s' v' where p: "p = (s', v')" by (cases p)
    with Inr assms(3) have "v'" using push_entries_flag by blast
    with Inr p st assms show ?thesis by (simp add: processFile_def)
  qed
qed

subsection \<open>What appending rows changes\<close>

lemma those_Some_set: "those xs = Some ys \<Longrightarrow> xs = map Some ys"
  by (induction xs arbitrary: ys) (auto split: option.splits)

lemma those_map_Some: "those (map Some ys) = Some ys"
  by (induction ys) auto

lemma rendered_Some: "map tr_innerHTML rs = map Some hs \<Longrightarrow> rendered rs = hs"
  by (induction rs arbitrary: hs) auto

lemma rendered_length: "length (rendered rs) \<le> length rs"
  by (induction rs) (auto split: option.splits)

lemma row_add_reports_append:
  "row_add_reports dt table (hs @ hs')
     = row_add_reports dt table hs @ row_add_reports dt (table @ hs) hs'"
  by (induction hs arbitrary: table) auto

text \<open>
  Whether it returns or throws, the loop has added the rows of the elements up to the first
  one whose row cannot be built, and the alerts are those DataTables raised for them.
\<close>

lemma add_rows_outcome:
  "outcome (add_rows dt (map Some rs) s)
     = s\<lparr>rows := rows s @ rendered rs,
          alerts := alerts s @ row_add_reports dt (rows s) (rendered rs)\<rparr>"
proof (induction rs arbitrary: s)
  case Nil
  then show ?case by simp
next
  case (Cons r rs)
  show ?case
  proof (cases "tr_innerHTML r")
    case None
    then show ?thesis by simp
  next
    case (Some h)
    with Cons [of "row_add dt h s"] show ?thesis by (simp add: row_add_def)
  qed
qed

lemma add_rows_returns:
  "map tr_innerHTML rs = map Some hs \<Longrightarrow> \<exists>s'. add_rows dt (map Some rs) s = Inr s'"
  by (induction rs arbitrary: hs s) auto

lemma add_rows_throws:
  "add_rows dt (map Some rs) s = Inr s' \<Longrightarrow> map tr_innerHTML rs = map Some (rendered rs)"
  by (induction rs arbitrary: s) (auto split: option.splits)

lemma add_rows_Some:
  assumes "map tr_innerHTML rs = map Some hs"
  shows "add_rows dt (map Some rs) s
           = Inr (s\<lparr>rows := rows s @ hs, alerts := alerts s @ row_add_reports dt (rows s) hs\<rparr>)"
proof -
  from assms obtain s' where r: "add_rows dt (map Some rs) s = Inr s'"
    using add_rows_returns by blast
  have "outcome (add_rows dt (map Some rs) s)
     = s\<lparr>rows := rows s @ rendered rs,
          alerts := alerts s @ row_add_reports dt (rows s) (rendered rs)\<rparr>"
    by (rule add_rows_outcome)
  with r assms show ?thesis by (simp add: rendered_Some)
qed

lemma appendResults_Some:
  assumes "map tr_innerHTML rs = map Some hs"
  shows "appendResults dt (map Some rs) s
           = Inr (s\<lparr>rows := rows s @ hs,
                    alerts := alerts s @ row_add_reports dt (rows s) hs
                                @ draw_alerts dt (rows s @ hs),
                    display := (if 0 < length (rows s @ hs) then ''block'' else ''none'')\<rparr>)"
  by (simp add: appendResults_def add_rows_Some [OF assms] draw_def
        updateResultsVisibility_def)

lemma appendResults_outcome:
  "\<exists>al d. outcome (appendResults dt (map Some rs) s)
            = s\<lparr>rows := rows s @ rendered rs, alerts := alerts s @ al, display := d\<rparr>"
proof -
  let ?a = "row_add_reports dt (rows s) (rendered rs)"
  have o: "outcome (add_rows dt (map Some rs) s)
     = s\<lparr>rows := rows s @ rendered rs, alerts := alerts s @ ?a\<rparr>"
    by (rule add_rows_outcome)
  show ?thesis
  proof (cases "add_rows dt (map Some rs) s")
    case (Inl s')
    with o have "outcome (appendResults dt (map Some rs) s)
            = s\<lparr>rows := rows s @ rendered rs, alerts := alerts s @ ?a, display := display s\<rparr>"
      by (simp add: appendResults_def)
    then show ?thesis by blast
  next
    case (Inr s')
    with o have "outcome (appendResults dt (map Some rs) s)
            = s\<lparr>rows := rows s @ rendered rs,
                 alerts := alerts s @ (?a @ draw_alerts dt (rows s @ rendered rs)),
                 display := (if 0 < length (rows s @ rendered rs) then ''block'' else ''none'')\<rparr>"
      by (simp add: appendResults_def draw_def updateResultsVisibility_def)
    then show ?thesis by blast
  qed
qed

subsection \<open>What an upload changes\<close>

text \<open>
  Whatever the outcome of the request, the \<^verbatim>\<open>try\<close> block changes the queue, the alerts
  and the visibility, and adds the rows of elements of \<open>row_items\<close>, in order, up to the
  first whose row cannot be built.
\<close>

lemma upload_try_frame:
  "\<exists>fl al d. outcome (upload_try dt out s)
      = s\<lparr>files := fl, rows := rows s @ rendered (row_items out),
           alerts := alerts s @ al, display := d\<rparr>"
proof -
  have same: "\<exists>fl al d. s = s\<lparr>files := fl, rows := rows s @ [],
           alerts := alerts s @ al, display := d\<rparr>"
  proof -
    have "s = s\<lparr>files := files s, rows := rows s @ [], alerts := alerts s @ [],
                display := display s\<rparr>" by simp
    then show ?thesis by blast
  qed
  show ?thesis
  proof (cases out)
    case Rejected
    with same show ?thesis by (simp add: upload_try_def row_items_def)
  next
    case (Response res)
    show ?thesis
    proof (cases "ok res")
      case False
      with Response same show ?thesis by (simp add: upload_try_def row_items_def)
    next
      case True
      show ?thesis
      proof (cases "json res")
        case NotJson
        with Response True same show ?thesis by (simp add: upload_try_def row_items_def)
      next
        case NoResultsArray
        with Response True same show ?thesis by (simp add: upload_try_def row_items_def)
      next
        case (Results results)
        show ?thesis
        proof (cases "those results")
          case None
          with Response True Results same show ?thesis
            by (simp add: upload_try_def row_items_def)
        next
          case (Some rs)
          let ?valid = "filter (\<lambda>r. \<not> truthy (error r)) rs"
          let ?errs = "filter (\<lambda>r. truthy (error r)) rs"
          let ?a = "if 0 < length ?valid then appendResults dt (map Some ?valid) s else Inr s"
          have ri: "row_items out = ?valid"
            using Response True Results Some by (simp add: row_items_def)
          have "\<exists>al d. outcome ?a
                   = s\<lparr>rows := rows s @ rendered ?valid, alerts := alerts s @ al, display := d\<rparr>"
          proof (cases "?valid = []")
            case True
            then have "outcome ?a
                   = s\<lparr>rows := rows s @ rendered ?valid, alerts := alerts s @ [],
                        display := display s\<rparr>"
              by simp
            then show ?thesis by blast
          next
            case False
            with appendResults_outcome [of dt ?valid s] show ?thesis by simp
          qed
          then obtain al d where o: "outcome ?a
                   = s\<lparr>rows := rows s @ rendered ?valid, alerts := alerts s @ al, display := d\<rparr>"
            by blast
          let ?t = "s\<lparr>rows := rows s @ rendered ?valid, alerts := alerts s @ al, display := d\<rparr>"
          have u: "upload_try dt out s =
                (case ?a of
                   Inl s1 \<Rightarrow> Inl s1
                 | Inr s1 \<Rightarrow>
                     if 0 < length ?errs
                     then (case those (map failed_name ?errs) of
                             None \<Rightarrow> Inl s1
                           | Some names \<Rightarrow>
                               Inr ((if 0 < length (join ''\<newline>'' (new_Set names))
                                     then alert (failed_alert (new_Set names)) s1 else s1)
                                      \<lparr>files := []\<rparr>))
                     else Inr (s1\<lparr>files := []\<rparr>))"
            using Response True Results Some unfolding upload_try_def Let_def by simp
          have "\<exists>fl al'. outcome (upload_try dt out s)
                  = ?t\<lparr>files := fl, alerts := alerts ?t @ al'\<rparr>"
          proof (cases ?a)
            case (Inl s1)
            with o u have "outcome (upload_try dt out s)
                  = ?t\<lparr>files := files ?t, alerts := alerts ?t @ []\<rparr>" by simp
            then show ?thesis by blast
          next
            case (Inr s1)
            with o have s1: "s1 = ?t" by simp
            show ?thesis
            proof (cases "0 < length ?errs")
              case False
              with Inr s1 u have "outcome (upload_try dt out s)
                  = ?t\<lparr>files := [], alerts := alerts ?t @ []\<rparr>" by simp
              then show ?thesis by blast
            next
              case e: True
              show ?thesis
              proof (cases "those (map failed_name ?errs)")
                case None
                with Inr s1 u e have "outcome (upload_try dt out s)
                  = ?t\<lparr>files := files ?t, alerts := alerts ?t @ []\<rparr>" by simp
                then show ?thesis by blast
              next
                case (Some names)
                show ?thesis
                proof (cases "0 < length (join ''\<newline>'' (new_Set names))")
                  case True
                  with Inr s1 u e Some have "outcome (upload_try dt out s)
                    = ?t\<lparr>files := [], alerts := alerts ?t @ [failed_alert (new_Set names)]\<rparr>"
                    by (simp add: alert_def Let_def)
                  then show ?thesis by blast
                next
                  case False
                  with Inr s1 u e Some have "outcome (upload_try dt out s)
                    = ?t\<lparr>files := [], alerts := alerts ?t @ []\<rparr>"
                    by (simp add: Let_def)
                  then show ?thesis by blast
                qed
              qed
            qed
          qed
          then obtain fl al' where "outcome (upload_try dt out s)
                  = ?t\<lparr>files := fl, alerts := alerts ?t @ al'\<rparr>" by blast
          then have "outcome (upload_try dt out s)
                  = s\<lparr>files := fl, rows := rows s @ rendered (row_items out),
                       alerts := alerts s @ (al @ al'), display := d\<rparr>"
            using ri by simp
          then show ?thesis by blast
        qed
      qed
    qed
  qed
qed

lemma upload_try_Inr_files: "upload_try dt out s = Inr s' \<Longrightarrow> files s' = []"
  by (auto simp: upload_try_def Let_def
           split: fetch_outcome.splits json_body.splits option.splits if_splits sum.splits)

lemma doUpload_settle_files: "files (doUpload_settle dt out s) = []"
  by (auto simp: doUpload_settle_def alert_def dest: upload_try_Inr_files split: sum.splits)

lemma doUpload_files: "files (doUpload dt fetch s) = []"
  by (simp add: doUpload_def doUpload_settle_files)

lemma doUpload_settle_frame:
  "\<exists>fl al d. doUpload_settle dt out s
      = s\<lparr>files := fl, rows := rows s @ rendered (row_items out),
           alerts := alerts s @ al, display := d\<rparr>"
proof -
  obtain fl al d where o: "outcome (upload_try dt out s)
      = s\<lparr>files := fl, rows := rows s @ rendered (row_items out),
           alerts := alerts s @ al, display := d\<rparr>"
    using upload_try_frame by blast
  show ?thesis
  proof (cases "upload_try dt out s")
    case (Inl s')
    with o have "doUpload_settle dt out s
      = s\<lparr>files := [], rows := rows s @ rendered (row_items out),
           alerts := alerts s @ (al @ [upload_failed]), display := d\<rparr>"
      by (simp add: doUpload_settle_def alert_def)
    then show ?thesis by blast
  next
    case (Inr s')
    with o show ?thesis by (auto simp: doUpload_settle_def)
  qed
qed

lemma doUpload_requests:
  "requests (doUpload dt fetch s) = requests s @ (if files s = [] then [] else [files s])"
proof -
  obtain fl al d where "doUpload_settle dt (fetch (files s)) (doUpload_send s)
      = (doUpload_send s)\<lparr>files := fl,
           rows := rows (doUpload_send s) @ rendered (row_items (fetch (files s))),
           alerts := alerts (doUpload_send s) @ al, display := d\<rparr>"
    using doUpload_settle_frame by blast
  then show ?thesis by (simp add: doUpload_def doUpload_send_def)
qed

lemma doUpload_rows:
  "rows (doUpload dt fetch s)
     = rows s @ (if files s = [] then [] else rendered (row_items (fetch (files s))))"
proof -
  obtain fl al d where "doUpload_settle dt (fetch (files s)) (doUpload_send s)
      = (doUpload_send s)\<lparr>files := fl,
           rows := rows (doUpload_send s) @ rendered (row_items (fetch (files s))),
           alerts := alerts (doUpload_send s) @ al, display := d\<rparr>"
    using doUpload_settle_frame by blast
  then show ?thesis by (simp add: doUpload_def doUpload_send_def)
qed

lemma on_files_requests:
  "requests (outcome (on_files dt loadAsync fetch fs s)) =
     requests s @ (case processFiles loadAsync fs s of
                     Inl s1 \<Rightarrow> []
                   | Inr s1 \<Rightarrow> if files s1 = [] then [] else [files s1])"
proof -
  obtain new al where o: "outcome (processFiles loadAsync fs s)
                            = s\<lparr>files := files s @ new, alerts := alerts s @ al\<rparr>"
    using processFiles_state by blast
  show ?thesis
  proof (cases "processFiles loadAsync fs s")
    case (Inl s1)
    with o show ?thesis by (simp add: on_files_def)
  next
    case (Inr s1)
    with o have "requests s1 = requests s" by simp
    with Inr show ?thesis by (simp add: on_files_def doUpload_requests)
  qed
qed

lemma on_files_rows:
  "prefix (rows s) (rows (outcome (on_files dt loadAsync fetch fs s)))"
proof -
  obtain new al where o: "outcome (processFiles loadAsync fs s)
                            = s\<lparr>files := files s @ new, alerts := alerts s @ al\<rparr>"
    using processFiles_state by blast
  show ?thesis
  proof (cases "processFiles loadAsync fs s")
    case (Inl s1)
    with o show ?thesis by (simp add: on_files_def)
  next
    case (Inr s1)
    with o have "rows s1 = rows s" by simp
    with Inr show ?thesis by (simp add: on_files_def doUpload_rows)
  qed
qed

lemma row_items_origin:
  assumes "r \<in> set (row_items out)"
  shows "\<not> truthy (error r) \<and>
     (\<exists>res results. out = Response res \<and> ok res \<and> json res = Results results
                       \<and> Some r \<in> set results)"
proof (cases out)
  case Rejected
  with assms show ?thesis by (simp add: row_items_def)
next
  case (Response res)
  show ?thesis
  proof (cases "json res")
    case NotJson
    with Response assms show ?thesis by (simp add: row_items_def split: if_splits)
  next
    case NoResultsArray
    with Response assms show ?thesis by (simp add: row_items_def split: if_splits)
  next
    case (Results results)
    show ?thesis
    proof (cases "those results")
      case None
      with Response Results assms show ?thesis by (simp add: row_items_def split: if_splits)
    next
      case (Some rs)
      then have m: "results = map Some rs" by (rule those_Some_set)
      from Response Results Some assms
      have "ok res" and "r \<in> set rs" and "\<not> truthy (error r)"
        by (auto simp: row_items_def split: if_splits)
      with m Response Results show ?thesis by auto
    qed
  qed
qed

lemma rendered_subset: "set (rendered rs) \<subseteq> {h. \<exists>r\<in>set rs. tr_innerHTML r = Some h}"
  by (induction rs) (auto split: option.splits)

lemma rendered_take: "\<exists>k\<le>length rs. map Some (rendered rs) = map tr_innerHTML (take k rs)"
proof (induction rs)
  case Nil
  then show ?case by simp
next
  case (Cons r rs)
  show ?case
  proof (cases "tr_innerHTML r")
    case None
    have "map Some (rendered (r # rs)) = map tr_innerHTML (take 0 (r # rs))"
      using None by simp
    then show ?thesis by blast
  next
    case (Some h)
    from Cons obtain k where k: "k \<le> length rs"
      "map Some (rendered rs) = map tr_innerHTML (take k rs)" by blast
    then have "Suc k \<le> length (r # rs)
        \<and> map Some (rendered (r # rs)) = map tr_innerHTML (take (Suc k) (r # rs))"
      using Some by simp
    then show ?thesis by blast
  qed
qed

lemma doUpload_parsed_rows:
  assumes "files s \<noteq> []" and "fetch (files s) = Response res" and "ok res"
    and "json res = Results (map Some rs)"
    and "map tr_innerHTML (filter (\<lambda>r. \<not> truthy (error r)) rs) = map Some hs"
  shows "rows (doUpload dt fetch s) = rows s @ hs"
  using assms by (simp add: doUpload_rows row_items_def those_map_Some rendered_Some)

subsection \<open>A sequence of handlers\<close>







subsection \<open>Names of failed files\<close>

lemma foldl_Set_add_set: "set (foldl Set_add acc xs) = set acc \<union> set xs"
  by (induction xs arbitrary: acc) (auto simp: Set_add_def)

lemma foldl_Set_add_distinct: "distinct acc \<Longrightarrow> distinct (foldl Set_add acc xs)"
  by (induction xs arbitrary: acc) (auto simp: Set_add_def)

lemma new_Set_set: "set (new_Set xs) = set xs"
  by (simp add: new_Set_def foldl_Set_add_set)

lemma new_Set_distinct: "distinct (new_Set xs)"
  by (simp add: new_Set_def foldl_Set_add_distinct)

lemma distinct_singleton: "distinct xs \<Longrightarrow> set xs = {a} \<Longrightarrow> xs = [a]"
proof (cases xs)
  case Nil
  assume "set xs = {a}"
  with Nil show ?thesis by simp
next
  case (Cons x ys)
  assume d: "distinct xs" and s: "set xs = {a}"
  from Cons s have x: "x = a" by auto
  from Cons d s x have "set ys \<subseteq> {a}" "a \<notin> set ys" by auto
  then have "ys = []" by (cases ys) auto
  with Cons x show ?thesis by simp
qed

lemma join_Nil_iff: "sep \<noteq> [] \<Longrightarrow> join sep xs = [] \<longleftrightarrow> xs = [] \<or> xs = [[]]"
  by (induction sep xs rule: join.induct) auto

lemma split_not_Nil: "split s \<noteq> []"
  by (induction s) (auto split: list.splits)

lemma split_no_sep: "\<forall>c\<in>set s. \<not> isSep c \<Longrightarrow> split s = [s]"
  by (induction s) auto

lemma split_append_sep: "isSep c \<Longrightarrow> split (xs @ c # ys) = split xs @ split ys"
proof (induction xs)
  case Nil
  then show ?case by simp
next
  case (Cons x xs)
  obtain seg segs where "split xs = seg # segs"
    using split_not_Nil by (cases "split xs") auto
  with Cons show ?case by simp
qed

text \<open>
  The name shown for a failed file is what follows the last separator of
  \<^verbatim>\<open>file_name\<close>: it holds no separator and ends \<^verbatim>\<open>file_name\<close>.
\<close>

text \<open>
  The name shown for a failed file is what follows the last separator of
  \<^verbatim>\<open>file_name\<close>: it holds no separator and ends \<^verbatim>\<open>file_name\<close>.
\<close>

lemma pop_split: "pop (split n) = rev (takeWhile (\<lambda>c. \<not> isSep c) (rev n))"
proof -
  let ?t = "takeWhile (\<lambda>c. \<not> isSep c) (rev n)"
  let ?d = "dropWhile (\<lambda>c. \<not> isSep c) (rev n)"
  have n: "n = rev ?d @ rev ?t"
    by (metis rev_append rev_rev_ident takeWhile_dropWhile_id)
  have t: "\<forall>c\<in>set (rev ?t). \<not> isSep c"
    by (auto dest: set_takeWhileD)
  show ?thesis
  proof (cases ?d)
    case Nil
    with n have "n = rev ?t" by simp
    with t have "split n = [rev ?t]" using split_no_sep by metis
    then show ?thesis by (simp add: pop_def)
  next
    case (Cons c d')
    then have c: "isSep c" using hd_dropWhile [of "\<lambda>c. \<not> isSep c" "rev n"] by auto
    from n Cons have "n = rev d' @ c # rev ?t" by simp
    then have "split n = split (rev d') @ split (rev ?t)"
      using split_append_sep [OF c] by metis
    also have "\<dots> = split (rev d') @ [rev ?t]" using t split_no_sep by metis
    finally show ?thesis by (simp add: pop_def)
  qed
qed

lemma pop_split_no_sep: "\<forall>c\<in>set (pop (split n)). \<not> isSep c"
  by (auto simp: pop_split dest: set_takeWhileD)

lemma pop_split_suffix: "suffix (pop (split n)) n"
proof -
  have "n = rev (dropWhile (\<lambda>c. \<not> isSep c) (rev n)) @ pop (split n)"
    unfolding pop_split by (metis rev_append rev_rev_ident takeWhile_dropWhile_id)
  then show ?thesis by (metis suffixI)
qed

lemma failed_names: "map file_name errs = map JStr ns \<Longrightarrow>
    those (map failed_name errs) = Some (map (\<lambda>n. pop (split n)) ns)"
  by (induction errs arbitrary: ns) (auto simp: failed_name_def)

text \<open>
  The alerts of an upload whose response is parsed, whose success items all give a row and
  whose error items all have a string as name: what DataTables reports for the new rows,
  then the one alert of the failed names unless the joined names are empty.
\<close>

lemma doUpload_parsed_alerts:
  assumes "files s \<noteq> []" and "fetch (files s) = Response res" and "ok res"
    and "json res = Results (map Some rs)"
    and "map tr_innerHTML (filter (\<lambda>r. \<not> truthy (error r)) rs) = map Some hs"
    and "map file_name (filter (\<lambda>r. truthy (error r)) rs) = map JStr ns"
    and "ns \<noteq> []"
  shows "alerts (doUpload dt fetch s) =
           alerts s @ append_reports dt (rows s) hs
             @ (if join ''\<newline>'' (new_Set (map (\<lambda>n. pop (split n)) ns)) = [] then []
                else [failed_alert (new_Set (map (\<lambda>n. pop (split n)) ns))])"
proof -
  let ?valid = "filter (\<lambda>r. \<not> truthy (error r)) rs"
  let ?errs = "filter (\<lambda>r. truthy (error r)) rs"
  let ?s0 = "doUpload_send s"
  from assms(6,7) have e: "?errs \<noteq> []" by auto
  have th: "those (map failed_name ?errs) = Some (map (\<lambda>n. pop (split n)) ns)"
    using assms(6) by (rule failed_names)
  have r0: "rows ?s0 = rows s" "alerts ?s0 = alerts s" by (simp_all add: doUpload_send_def)
  have d: "doUpload dt fetch s = doUpload_settle dt (Response res) ?s0"
    using assms(1,2) by (simp add: doUpload_def)
  show ?thesis
  proof (cases "?valid = []")
    case True
    with assms(5) have hs: "hs = []" by simp
    from True e th assms(3,4) show ?thesis
      unfolding d doUpload_settle_def upload_try_def Let_def
      by (simp add: those_map_Some hs append_reports_def r0 alert_def)
  next
    case False
    with assms(5) have hs: "hs \<noteq> []" by auto
    have a: "appendResults dt (map Some ?valid) ?s0
           = Inr (?s0\<lparr>rows := rows ?s0 @ hs,
                    alerts := alerts ?s0 @ row_add_reports dt (rows ?s0) hs
                                @ draw_alerts dt (rows ?s0 @ hs),
                    display := (if 0 < length (rows ?s0 @ hs) then ''block'' else ''none'')\<rparr>)"
      using assms(5) by (rule appendResults_Some)
    from False e th assms(3,4) hs show ?thesis
      unfolding d doUpload_settle_def upload_try_def Let_def
      by (simp add: those_map_Some a append_reports_def r0 alert_def)
  qed
qed

subsection \<open>The HTML of a row\<close>

lemma text_of_toString: "text_of v t \<Longrightarrow> toString v = Some t"
  by (auto simp: text_of_def)

lemma tr_innerHTML_texts:
  assumes "text_of (file_name r) n" and "text_of (chart_link r) u"
    and "text_of (std_dev r) t1" and "text_of (large_changes r) t2"
    and "text_of (avg_daily_return r) t3" and "text_of (annual_volatility r) t4"
    and "text_of (sharpe_ratio r) t5" and "text_of (max_drawdown r) t6"
    and "text_of (positive_days r) t7" and "text_of (moving_average r) t8"
    and "text_of (bollinger_pctB r) t9" and "text_of (rsi r) t10"
    and "text_of (volume_spikes r) t11"
  shows "link r = Some (if chart_link r = JStr ''N/A'' then n
                        else ''<a href=\"'' @ u @ ''\" target=\"_blank\">'' @ n @ ''</a>'')"
    and "those (interpolated r) = Some [the (link r), t1, t2, t3, t4, t5, t6, t7, t8, t9, t10, t11]"
proof -
  have f: "toString (file_name r) = Some n" "toString (chart_link r) = Some u"
    using assms(1,2) by (simp_all add: text_of_toString)
  show l: "link r = Some (if chart_link r = JStr ''N/A'' then n
                        else ''<a href=\"'' @ u @ ''\" target=\"_blank\">'' @ n @ ''</a>'')"
    by (simp add: link_def f)
  have m: "toString (std_dev r) = Some t1" "toString (large_changes r) = Some t2"
    "toString (avg_daily_return r) = Some t3" "toString (annual_volatility r) = Some t4"
    "toString (sharpe_ratio r) = Some t5" "toString (max_drawdown r) = Some t6"
    "toString (positive_days r) = Some t7" "toString (moving_average r) = Some t8"
    "toString (bollinger_pctB r) = Some t9" "toString (rsi r) = Some t10"
    "toString (volume_spikes r) = Some t11"
    using assms(3-13) by (simp_all add: text_of_toString)
  show "those (interpolated r) = Some [the (link r), t1, t2, t3, t4, t5, t6, t7, t8, t9, t10, t11]"
    by (simp add: interpolated_def l m)
qed

lemma sublist_mid: "sublist x (a @ x @ b)"
  unfolding sublist_def by blast

subsection \<open>Visibility\<close>


lemma updateResultsVisibility_rows: "rows (updateResultsVisibility s) = rows s"
  by (simp add: updateResultsVisibility_def)

lemma draw_rows: "rows (draw dt s) = rows s"
  by (simp add: draw_def)



subsection \<open>The samples\<close>

lemma quiet_alerts: "row_add_alerts quiet table h = []" "draw_alerts quiet table = []"
  by (simp_all add: quiet_def)

lemma row_add_reports_quiet: "row_add_reports quiet table hs = []"
  by (induction hs arbitrary: table) (simp_all add: quiet_alerts)

lemma append_reports_quiet: "append_reports quiet table hs = []"
  by (simp add: append_reports_def row_add_reports_quiet quiet_alerts)

lemma ok_item_row: "\<exists>h. tr_innerHTML ok_item = Some h"
  by (simp add: tr_innerHTML_def interpolated_def link_def ok_item_def blank_def)

lemma odd_item_row: "tr_innerHTML odd_item = None"
  by (simp add: tr_innerHTML_def interpolated_def link_def odd_item_def blank_def)

lemma sample_errors:
  "\<not> truthy (error ok_item)" "truthy (error err_item)" "truthy (error dir_item)"
  "\<not> truthy (error odd_item)"
  by (simp_all add: ok_item_def err_item_def dir_item_def odd_item_def blank_def)

subsection \<open>The second copy of the script\<close>

text \<open>
  In the copy of \<^verbatim>\<open>src/unnamed/part_000\<close> a plain item is queued when its name ends in
  \<^verbatim>\<open>.csv\<close> and reported otherwise, and a bundle with no \<^verbatim>\<open>.csv\<close> entry changes
  nothing and reports nothing.
\<close>

lemma processFiles_alt_plain:
  "\<forall>f\<in>set fs. \<not> endsWith (name f) ''.zip'' \<Longrightarrow>
     processFiles_alt loadAsync fs s
       = Inr (s\<lparr>files := files s @ filter (\<lambda>f. endsWith (name f) ''.csv'') fs,
               alerts := alerts s @ map (\<lambda>f. unsupported (name f))
                                      (filter (\<lambda>f. \<not> endsWith (name f) ''.csv'') fs)\<rparr>)"
  by (induction fs arbitrary: s) (auto simp: processFile_alt_def alert_def)

lemma push_entries_alt_no_csv:
  "\<forall>e\<in>set es. \<not> endsWith (fst e) ''.csv'' \<Longrightarrow> push_entries_alt es s = Inr s"
  by (induction es s rule: push_entries_alt.induct) auto

lemma processFile_alt_silent:
  "endsWith (name f) ''.zip'' \<Longrightarrow> loadAsync (bytes f) = Some es \<Longrightarrow>
   \<forall>e\<in>set es. \<not> endsWith (fst e) ''.csv'' \<Longrightarrow> processFile_alt loadAsync f s = Inr s"
  by (simp add: processFile_alt_def push_entries_alt_no_csv)

text \<open>
  Its upload keeps the queue when the request fails, and adds rows for the elements of the
  response as they come, error items included.
\<close>

lemma doUpload_alt_keeps_queue:
  "files s \<noteq> [] \<Longrightarrow> fetch (files s) = Rejected \<Longrightarrow>
     files (doUpload_alt dt fetch err s) = files s"
  by (simp add: doUpload_alt_def upload_try_alt_def alert_def)

lemma doUpload_alt_rows:
  assumes "files s \<noteq> []" and "fetch (files s) = Response res"
    and "json res = Results (map Some rs)"
  shows "rows (doUpload_alt dt fetch err s) = rows s @ rendered rs"
proof -
  let ?s0 = "s\<lparr>requests := requests s @ [files s]\<rparr>"
  obtain al d where o: "outcome (appendResults dt (map Some rs) ?s0)
            = ?s0\<lparr>rows := rows ?s0 @ rendered rs, alerts := alerts ?s0 @ al, display := d\<rparr>"
    using appendResults_outcome by blast
  from assms o show ?thesis
    by (cases "appendResults dt (map Some rs) ?s0")
       (simp_all add: doUpload_alt_def upload_try_alt_def alert_def)
qed

section \<open>The claims\<close>




text \<open>
  C2. The rows an upload appends are rows of elements of a parsed success response that
  carry no error indicator: for a parsed response they are the rows of those elements, in
  order, up to the first whose row cannot be built, and all of them when every row can be
  built; so an error item never gets a row. A drop or selection, upload included, only
  ever extends the rows: removing a row is left to \<open>remove_btn_click\<close> and
  \<open>clearBtn_click\<close>.
\<close>

theorem rows_only_for_success_items:
  "(\<exists>ks hs. rows (doUpload dt fetch s) = rows s @ hs \<and> map tr_innerHTML ks = map Some hs
        \<and> (\<forall>r\<in>set ks. \<not> truthy (error r)
              \<and> (\<exists>res results. fetch (files s) = Response res \<and> ok res
                    \<and> json res = Results results \<and> Some r \<in> set results)))
   \<and> (files s \<noteq> [] \<and> fetch (files s) = Response res \<and> ok res \<and> json res = Results (map Some rs)
        \<longrightarrow> rows (doUpload dt fetch s)
              = rows s @ rendered (filter (\<lambda>r. \<not> truthy (error r)) rs))
   \<and> (files s \<noteq> [] \<and> fetch (files s) = Response res \<and> ok res \<and> json res = Results (map Some rs)
        \<and> map tr_innerHTML (filter (\<lambda>r. \<not> truthy (error r)) rs) = map Some hs'
        \<longrightarrow> rows (doUpload dt fetch s) = rows s @ hs')
   \<and> prefix (rows s) (rows (outcome (on_files dt loadAsync fetch fs s)))"
proof -
  let ?all = "if files s = [] then [] else row_items (fetch (files s))"
  have r: "rows (doUpload dt fetch s) = rows s @ rendered ?all"
    by (simp add: doUpload_rows)
  obtain k where k: "map Some (rendered ?all) = map tr_innerHTML (take k ?all)"
    using rendered_take by blast
  have "\<forall>r\<in>set (take k ?all). \<not> truthy (error r)
              \<and> (\<exists>res results. fetch (files s) = Response res \<and> ok res
                    \<and> json res = Results results \<and> Some r \<in> set results)"
  proof
    fix r assume "r \<in> set (take k ?all)"
    then have "r \<in> set ?all" by (rule in_set_takeD)
    then have "r \<in> set (row_items (fetch (files s)))" by (simp split: if_splits)
    then show "\<not> truthy (error r)
              \<and> (\<exists>res results. fetch (files s) = Response res \<and> ok res
                    \<and> json res = Results results \<and> Some r \<in> set results)"
      by (rule row_items_origin)
  qed
  with r k have a: "\<exists>ks hs. rows (doUpload dt fetch s) = rows s @ hs
        \<and> map tr_innerHTML ks = map Some hs
        \<and> (\<forall>r\<in>set ks. \<not> truthy (error r)
              \<and> (\<exists>res results. fetch (files s) = Response res \<and> ok res
                    \<and> json res = Results results \<and> Some r \<in> set results))"
    by metis
  have b: "files s \<noteq> [] \<and> fetch (files s) = Response res \<and> ok res \<and> json res = Results (map Some rs)
        \<longrightarrow> rows (doUpload dt fetch s)
              = rows s @ rendered (filter (\<lambda>r. \<not> truthy (error r)) rs)"
    by (simp add: doUpload_rows row_items_def those_map_Some)
  have c: "files s \<noteq> [] \<and> fetch (files s) = Response res \<and> ok res \<and> json res = Results (map Some rs)
        \<and> map tr_innerHTML (filter (\<lambda>r. \<not> truthy (error r)) rs) = map Some hs'
        \<longrightarrow> rows (doUpload dt fetch s) = rows s @ hs'"
    by (simp add: doUpload_parsed_rows)
  from a b c on_files_rows show ?thesis by blast
qed

text \<open>
  C2, at a response of one success item and one error item.
\<close>

theorem rows_only_for_success_items_witness:
  "files (init\<lparr>files := [a_csv]\<rparr>) \<noteq> []
   \<and> map Some (rows (doUpload quiet mixed (init\<lparr>files := [a_csv]\<rparr>))) = [tr_innerHTML ok_item]"
proof -
  let ?s = "init\<lparr>files := [a_csv]\<rparr>"
  let ?res = "\<lparr>ok = True, status = 200, json = Results [Some ok_item, Some err_item]\<rparr>"
  obtain h where h: "tr_innerHTML ok_item = Some h" using ok_item_row by blast
  have g: "files ?s \<noteq> [] \<and> mixed (files ?s) = Response ?res \<and> ok ?res
             \<and> json ?res = Results (map Some [ok_item, err_item])
             \<and> map tr_innerHTML (filter (\<lambda>r. \<not> truthy (error r)) [ok_item, err_item])
                 = map Some [h]"
    by (simp add: mixed_def sample_errors h)
  from g rows_only_for_success_items [where fetch = mixed and s = ?s and res = ?res
      and rs = "[ok_item, err_item]" and hs' = "[h]" and dt = quiet]
  have "rows (doUpload quiet mixed ?s) = rows ?s @ [h]"
    by blast
  with h show ?thesis by (simp add: init_def)
qed




text \<open>
  C4 fails: a success response with one success item and one error item whose
  \<^verbatim>\<open>file_name\<close> is \<^verbatim>\<open>uploads/\<close> appends the row and raises no alert.
\<close>

theorem failed_alert_counterexample:
  "length (rows (doUpload quiet mixed_dir (init\<lparr>files := [a_csv]\<rparr>))) = 1
   \<and> alerts (doUpload quiet mixed_dir (init\<lparr>files := [a_csv]\<rparr>)) = []"
proof -
  let ?s = "init\<lparr>files := [a_csv]\<rparr>"
  let ?res = "\<lparr>ok = True, status = 200, json = Results [Some ok_item, Some dir_item]\<rparr>"
  obtain h where h: "tr_innerHTML ok_item = Some h" using ok_item_row by blast
  have h1: "files ?s \<noteq> []" by simp
  have h2: "mixed_dir (files ?s) = Response ?res" by (simp add: mixed_dir_def)
  have h3: "ok ?res" by simp
  have h4: "json ?res = Results (map Some [ok_item, dir_item])" by simp
  have h5: "map tr_innerHTML (filter (\<lambda>r. \<not> truthy (error r)) [ok_item, dir_item])
              = map Some [h]"
    by (simp add: sample_errors h)
  have h6: "map file_name (filter (\<lambda>r. truthy (error r)) [ok_item, dir_item])
              = map JStr [''uploads/'']"
    by (simp add: sample_errors) (simp add: dir_item_def blank_def)
  have h7: "[''uploads/''] \<noteq> []" by simp
  have p: "pop (split ''uploads/'') = []" by (simp add: pop_def isSep_def)
  have r: "rows (doUpload quiet mixed_dir ?s) = rows ?s @ [h]"
    using doUpload_parsed_rows [where fetch = mixed_dir and s = ?s, OF h1 h2 h3 h4 h5] .
  have f: "new_Set (map (\<lambda>n. pop (split n)) [''uploads/'']) = [[]]"
    using p by (simp add: new_Set_def Set_add_def)
  have a: "alerts (doUpload quiet mixed_dir ?s) = alerts ?s"
    using doUpload_parsed_alerts [where fetch = mixed_dir and s = ?s and dt = quiet,
        OF h1 h2 h3 h4 h5 h6 h7]
    unfolding f by (simp add: append_reports_quiet)
  from r a show ?thesis by (simp add: init_def)
qed

text \<open>
  C4, amended. For a parsed success response whose success items all give a row (every
  field has a string conversion) and whose error items all have a string as
  \<^verbatim>\<open>file_name\<close>, with at least one failed name that is not empty once the path is
  stripped: the rows of the success items are appended, one each, and after whatever
  DataTables reports for these rows the script raises exactly one alert, which lists the
  distinct stripped names, one per line, under a heading in the plural when there is more
  than one name.
\<close>

theorem failed_files_alert:
  assumes "files s \<noteq> []" and "fetch (files s) = Response res" and "ok res"
    and "json res = Results (map Some rs)"
    and "map tr_innerHTML (filter (\<lambda>r. \<not> truthy (error r)) rs) = map Some hs"
    and "map file_name (filter (\<lambda>r. truthy (error r)) rs) = map JStr ns"
    and "failed = new_Set (map (\<lambda>n. pop (split n)) ns)"
    and "\<exists>n\<in>set failed. n \<noteq> []"
  shows "rows (doUpload dt fetch s) = rows s @ hs
         \<and> length hs = length (filter (\<lambda>r. \<not> truthy (error r)) rs)
         \<and> alerts (doUpload dt fetch s)
           = alerts s @ append_reports dt (rows s) hs
               @ [''The following file'' @ (if 1 < length failed then ''s'' else '''')
                   @ '' failed to upload:\<newline>\<newline>'' @ join ''\<newline>'' failed]
         \<and> distinct failed
         \<and> set failed = (\<lambda>n. pop (split n)) ` set ns
         \<and> (\<forall>n\<in>set failed. \<forall>c\<in>set n. c \<noteq> CHR ''/'' \<and> c \<noteq> CHR 0x5C)"
proof -
  from assms(7,8) have ns: "ns \<noteq> []" by (auto simp: new_Set_set)
  have sep: "''\<newline>'' \<noteq> ([] :: string)" by simp
  from assms(8) have "failed \<noteq> [] \<and> failed \<noteq> [[]]" by auto
  then have j: "join ''\<newline>'' failed \<noteq> []" using join_Nil_iff [OF sep] by blast
  have r: "rows (doUpload dt fetch s) = rows s @ hs"
    using doUpload_parsed_rows [where fetch = fetch and s = s, OF assms(1-5)] .
  have l: "length hs = length (filter (\<lambda>r. \<not> truthy (error r)) rs)"
    using assms(5) by (metis length_map)
  have "alerts (doUpload dt fetch s)
          = alerts s @ append_reports dt (rows s) hs @ [failed_alert failed]"
    using doUpload_parsed_alerts [where fetch = fetch and s = s, OF assms(1-6) ns] j assms(7)
    by simp
  then have a: "alerts (doUpload dt fetch s)
           = alerts s @ append_reports dt (rows s) hs
               @ [''The following file'' @ (if 1 < length failed then ''s'' else '''')
                   @ '' failed to upload:\<newline>\<newline>'' @ join ''\<newline>'' failed]"
    by (simp add: failed_alert_def)
  have d: "distinct failed" using assms(7) by (simp add: new_Set_distinct)
  have s: "set failed = (\<lambda>n. pop (split n)) ` set ns" using assms(7) by (simp add: new_Set_set)
  have c: "\<forall>n\<in>set failed. \<forall>c\<in>set n. c \<noteq> CHR ''/'' \<and> c \<noteq> CHR 0x5C"
    using s pop_split_no_sep by (auto simp: isSep_def)
  from r l a d s c show ?thesis by blast
qed

text \<open>
  C4 amended, at a response of one success item and the error item
  \<^verbatim>\<open>uploads/b.csv\<close>.
\<close>

theorem failed_files_alert_witness:
  "alerts (doUpload quiet mixed (init\<lparr>files := [a_csv]\<rparr>))
     = [''The following file failed to upload:\<newline>\<newline>b.csv'']
   \<and> map Some (rows (doUpload quiet mixed (init\<lparr>files := [a_csv]\<rparr>))) = [tr_innerHTML ok_item]"
proof -
  let ?s = "init\<lparr>files := [a_csv]\<rparr>"
  let ?res = "\<lparr>ok = True, status = 200, json = Results [Some ok_item, Some err_item]\<rparr>"
  obtain h where h: "tr_innerHTML ok_item = Some h" using ok_item_row by blast
  have p: "pop (split ''uploads/b.csv'') = ''b.csv''"
    by (simp add: pop_def isSep_def)
  have h1: "files ?s \<noteq> []" by simp
  have h2: "mixed (files ?s) = Response ?res" by (simp add: mixed_def)
  have h3: "ok ?res" by simp
  have h4: "json ?res = Results (map Some [ok_item, err_item])" by simp
  have h5: "map tr_innerHTML (filter (\<lambda>r. \<not> truthy (error r)) [ok_item, err_item])
              = map Some [h]"
    by (simp add: sample_errors h)
  have h6: "map file_name (filter (\<lambda>r. truthy (error r)) [ok_item, err_item])
              = map JStr [''uploads/b.csv'']"
    by (simp add: sample_errors) (simp add: err_item_def blank_def)
  have h7: "[''b.csv''] = new_Set (map (\<lambda>n. pop (split n)) [''uploads/b.csv''])"
    using p by (simp add: new_Set_def Set_add_def)
  have h8: "\<exists>n\<in>set [''b.csv'']. n \<noteq> []" by simp
  from failed_files_alert [where fetch = mixed and s = ?s and dt = quiet,
      OF h1 h2 h3 h4 h5 h6 h7 h8]
  have "rows (doUpload quiet mixed ?s) = rows ?s @ [h]"
    and "alerts (doUpload quiet mixed ?s)
           = alerts ?s @ append_reports quiet (rows ?s) [h]
               @ [''The following file'' @ (if 1 < length [''b.csv''] then ''s'' else '''')
                   @ '' failed to upload:\<newline>\<newline>'' @ join ''\<newline>'' [''b.csv'']]"
    by blast+
  with h show ?thesis by (simp add: init_def append_reports_quiet)
qed




text \<open>
  C6 fails: \<^verbatim>\<open>notes.txt\<close>, dropped with \<^verbatim>\<open>a.csv\<close>, is queued and sent like
  \<^verbatim>\<open>a.csv\<close>, and no notice is raised.
\<close>

theorem unsupported_items_counterexample:
  "processFiles unzip0 [a_csv, notes_txt] init = Inr (init\<lparr>files := [a_csv, notes_txt]\<rparr>)
   \<and> requests (outcome (on_files quiet unzip0 no_results [a_csv, notes_txt] init)) = [[a_csv, notes_txt]]
   \<and> alerts (outcome (on_files quiet unzip0 no_results [a_csv, notes_txt] init)) = []"
  by (simp add: on_files_def processFile_def doUpload_def doUpload_settle_def doUpload_send_def
        upload_try_def a_csv_def notes_txt_def no_results_def endsWith_def init_def)

text \<open>
  C6, amended. Every item whose name does not end in \<^verbatim>\<open>.zip\<close> is queued, whatever
  its type: a batch of such items is appended to the queue in order, with no notice, and
  the one request that follows holds the queue with all of them.
\<close>

theorem plain_items_all_queued:
  assumes "\<forall>f\<in>set fs. \<not> endsWith (name f) ''.zip''" and "fs \<noteq> []"
  shows "processFiles loadAsync fs s = Inr (s\<lparr>files := files s @ fs\<rparr>)
         \<and> requests (outcome (on_files dt loadAsync fetch fs s)) = requests s @ [files s @ fs]"
proof -
  from assms(1) have p: "processFiles loadAsync fs s = Inr (s\<lparr>files := files s @ fs\<rparr>)"
    by (rule processFiles_plain)
  with assms(2) show ?thesis by (simp add: on_files_requests)
qed

text \<open>
  C6 amended, at the batch \<^verbatim>\<open>a.csv\<close>, \<^verbatim>\<open>notes.txt\<close>.
\<close>

theorem plain_items_all_queued_witness:
  "\<not> endsWith (name a_csv) ''.zip'' \<and> \<not> endsWith (name notes_txt) ''.zip''
   \<and> processFiles unzip0 [a_csv, notes_txt] init = Inr (init\<lparr>files := [a_csv, notes_txt]\<rparr>)
   \<and> requests (outcome (on_files quiet unzip0 no_results [a_csv, notes_txt] init))
       = [[a_csv, notes_txt]]"
proof -
  have h1: "\<forall>f\<in>set [a_csv, notes_txt]. \<not> endsWith (name f) ''.zip''"
    by (simp add: a_csv_def notes_txt_def endsWith_def)
  have h2: "[a_csv, notes_txt] \<noteq> []" by simp
  show ?thesis
    using h1 plain_items_all_queued [where fs = "[a_csv, notes_txt]" and loadAsync = unzip0
        and s = init and fetch = no_results and dt = quiet, OF h1 h2]
    by (simp add: init_def)
qed

text \<open>
  C7 fails: a bundle that holds one folder and no file has no usable entry, yet the folder
  is queued as an empty file and no notice is raised.
\<close>

theorem folder_bundle_counterexample:
  "files (outcome (processFile unzip0 dir_zip init))
     = [\<lparr>name = ''dir/'', type = ''text/csv'', bytes = []\<rparr>]
   \<and> alerts (outcome (processFile unzip0 dir_zip init)) = []"
  by (simp add: processFile_def dir_zip_def unzip0_def endsWith_def init_def)

text \<open>
  C7, amended. A bundle with no entry at all queues nothing and raises exactly one alert,
  which names the bundle and says that it contains no files. A bundle with at least one
  entry, usable or not, raises no notice: one file is queued for each entry read.
\<close>

theorem empty_bundle_is_reported:
  assumes "endsWith (name f) ''.zip''" and "loadAsync (bytes f) = Some es"
  shows "(es = [] \<longrightarrow>
            processFile loadAsync f s = Inr (s\<lparr>alerts := alerts s @ [no_files (name f)]\<rparr>)
            \<and> files (outcome (processFile loadAsync f s)) = files s
            \<and> alerts (outcome (processFile loadAsync f s)) = alerts s @ [no_files (name f)])
         \<and> (es \<noteq> [] \<longrightarrow>
            files (outcome (processFile loadAsync f s)) = files s @ extracted es
            \<and> alerts (outcome (processFile loadAsync f s)) = alerts s)"
proof -
  have a: "es = [] \<longrightarrow>
            processFile loadAsync f s = Inr (s\<lparr>alerts := alerts s @ [no_files (name f)]\<rparr>)
            \<and> files (outcome (processFile loadAsync f s)) = files s
            \<and> alerts (outcome (processFile loadAsync f s)) = alerts s @ [no_files (name f)]"
    using assms by (simp add: processFile_def alert_def)
  have b: "es \<noteq> [] \<longrightarrow>
            files (outcome (processFile loadAsync f s)) = files s @ extracted es
            \<and> alerts (outcome (processFile loadAsync f s)) = alerts s"
    using processFile_zip_files [where f = f and loadAsync = loadAsync, OF assms]
      processFile_entries_quiet [where f = f and loadAsync = loadAsync, OF assms]
    by simp
  from a b show ?thesis by simp
qed

text \<open>
  C7 amended, at \<^verbatim>\<open>empty.zip\<close>.
\<close>

theorem empty_bundle_is_reported_witness:
  \<open>endsWith (name empty_zip) ''.zip'' \<and> unzip0 (bytes empty_zip) = Some []
   \<and> files (outcome (processFile unzip0 empty_zip init)) = []
   \<and> alerts (outcome (processFile unzip0 empty_zip init))
       = [''ZIP file "empty.zip" contains no files.'']\<close>
proof -
  have h1: "endsWith (name empty_zip) ''.zip''" by (simp add: empty_zip_def endsWith_def)
  have h2: "unzip0 (bytes empty_zip) = Some []" by (simp add: empty_zip_def unzip0_def)
  show ?thesis
    using h1 h2
      empty_bundle_is_reported [where f = empty_zip and loadAsync = unzip0 and s = init,
        OF h1 h2]
    by (simp add: empty_zip_def init_def no_files_def)
qed

text \<open>
  C8 fails: the entry of a bundle of type \<^verbatim>\<open>application/zip\<close> is queued with the
  type \<^verbatim>\<open>text/csv\<close>.
\<close>

theorem bundle_type_counterexample:
  "map type (files (outcome (processFile unzip0 b_zip init))) = [''text/csv'']
   \<and> type b_zip = ''application/zip''"
  by (simp add: processFile_def b_zip_def unzip0_def endsWith_def init_def)

text \<open>
  C8, amended. Every file queued for an entry of a bundle has the fixed type
  \<^verbatim>\<open>text/csv\<close>, whatever the type of the bundle.
\<close>

theorem bundle_entries_are_text_csv:
  assumes "endsWith (name f) ''.zip''" and "loadAsync (bytes f) = Some es"
  shows "files (outcome (processFile loadAsync f s)) = files s @ extracted es
         \<and> (\<forall>g \<in> set (extracted es). type g = ''text/csv'')"
  using processFile_zip_files [where f = f and loadAsync = loadAsync, OF assms] extracted_type by blast

text \<open>
  C8 amended, at \<^verbatim>\<open>b.zip\<close>.
\<close>

theorem bundle_entries_are_text_csv_witness:
  "endsWith (name b_zip) ''.zip'' \<and> unzip0 (bytes b_zip) = Some [(''x.dat'', Some ''1,2'')]
   \<and> files (outcome (processFile unzip0 b_zip init))
       = [\<lparr>name = ''x.dat'', type = ''text/csv'', bytes = ''1,2''\<rparr>]"
proof -
  have h1: "endsWith (name b_zip) ''.zip''" by (simp add: b_zip_def endsWith_def)
  have h2: "unzip0 (bytes b_zip) = Some [(''x.dat'', Some ''1,2'')]"
    by (simp add: b_zip_def unzip0_def)
  show ?thesis
    using h1 h2 bundle_entries_are_text_csv [where f = b_zip and loadAsync = unzip0 and s = init, OF h1 h2]
    by (simp add: init_def)
qed

text \<open>
  C9. For a success item whose \<^verbatim>\<open>file_name\<close>, \<^verbatim>\<open>chart_link\<close> and metrics read
  as the texts \<open>n\<close>, \<open>u\<close> and \<open>t1\<close> to \<open>t11\<close>, the row is the template with exactly
  these texts put in, character for character: the first cell is the plain \<open>n\<close> when
  \<^verbatim>\<open>chart_link\<close> is the string \<^verbatim>\<open>N/A\<close> and otherwise an anchor whose \<^verbatim>\<open>href\<close>
  is \<open>u\<close> as it is, so whatever markup a field holds stands in the HTML of the row as
  it is.
\<close>

theorem row_html_is_raw_interpolation:
  assumes "text_of (file_name r) n" and "text_of (chart_link r) u"
    and "text_of (std_dev r) t1" and "text_of (large_changes r) t2"
    and "text_of (avg_daily_return r) t3" and "text_of (annual_volatility r) t4"
    and "text_of (sharpe_ratio r) t5" and "text_of (max_drawdown r) t6"
    and "text_of (positive_days r) t7" and "text_of (moving_average r) t8"
    and "text_of (bollinger_pctB r) t9" and "text_of (rsi r) t10"
    and "text_of (volume_spikes r) t11"
    and \<open>first = (if chart_link r = JStr ''N/A'' then n
                  else ''<a href="'' @ u @ ''" target="_blank">'' @ n @ ''</a>'')\<close>
    and \<open>html = ''\<newline>            <td>'' @ first @ ''</td>''
          @ ''\<newline>            <td>'' @ t1 @ ''</td>''
          @ ''\<newline>            <td>'' @ t2 @ ''</td>''
          @ ''\<newline>            <td>'' @ t3 @ ''</td>''
          @ ''\<newline>            <td>'' @ t4 @ ''</td>''
          @ ''\<newline>            <td>'' @ t5 @ ''</td>''
          @ ''\<newline>            <td>'' @ t6 @ ''</td>''
          @ ''\<newline>            <td>'' @ t7 @ ''</td>''
          @ ''\<newline>            <td>'' @ t8 @ ''</td>''
          @ ''\<newline>            <td>'' @ t9 @ ''</td>''
          @ ''\<newline>            <td>'' @ t10 @ ''</td>''
          @ ''\<newline>            <td>'' @ t11 @ ''</td>''
          @ ''\<newline>            <td class="action-col"><button class="remove-btn">''
          @ [CHR 0xE2, CHR 0x9D, CHR 0x8C] @ ''</button></td>\<newline>        ''\<close>
  shows "tr_innerHTML r = Some html
         \<and> rows (outcome (appendResults dt [Some r] s)) = rows s @ [html]
         \<and> sublist n html"
proof -
  have l: "link r = Some first"
    using tr_innerHTML_texts(1) [OF assms(1-13)] assms(14) by simp
  have i: "those (interpolated r) = Some [first, t1, t2, t3, t4, t5, t6, t7, t8, t9, t10, t11]"
    using tr_innerHTML_texts(2) [OF assms(1-13)] l by simp
  have t: "tr_innerHTML r = Some html"
    by (simp add: tr_innerHTML_def i td_def action_td_def assms(15))
  have a: "rows (outcome (appendResults dt [Some r] s)) = rows s @ [html]"
    by (simp add: appendResults_def t row_add_def updateResultsVisibility_rows draw_rows)
  have "sublist n first"
  proof (cases "chart_link r = JStr ''N/A''")
    case True
    with assms(14) show ?thesis by simp
  next
    case False
    with assms(14)
    have \<open>first = (''<a href="'' @ u @ ''" target="_blank">'') @ n @ ''</a>''\<close> by simp
    then show ?thesis using sublist_mid by metis
  qed
  moreover have "sublist first html"
    unfolding assms(15) by (rule sublist_mid)
  ultimately have "sublist n html" by (rule sublist_order.order.trans)
  with t a show ?thesis by simp
qed

text \<open>
  C9, at an item with a script URL as \<^verbatim>\<open>chart_link\<close> and an ampersand in its name,
  and at an item whose name is markup.
\<close>

theorem row_html_is_raw_interpolation_witness:
  \<open>tr_innerHTML linked_item = Some (''\<newline>            <td><a href="javascript:alert(1)" target="_blank">a&b.csv</a></td>\<newline>            <td>1.5</td>\<newline>            <td>0</td>\<newline>            <td>0.1</td>\<newline>            <td>23.8</td>\<newline>            <td>1.1</td>\<newline>            <td>-12.5</td>\<newline>            <td>55</td>\<newline>            <td>174</td>\<newline>            <td>N/A</td>\<newline>            <td>61.2</td>\<newline>            <td>3</td>\<newline>            <td class="action-col"><button class="remove-btn">''
       @ [CHR 0xE2, CHR 0x9D, CHR 0x8C] @ ''</button></td>\<newline>        '')
   \<and> tr_innerHTML markup_item = Some (''\<newline>            <td><img src=x onerror=alert(1)></td>\<newline>            <td>1.5</td>\<newline>            <td>0</td>\<newline>            <td>0.1</td>\<newline>            <td>23.8</td>\<newline>            <td>1.1</td>\<newline>            <td>-12.5</td>\<newline>            <td>55</td>\<newline>            <td>174</td>\<newline>            <td>N/A</td>\<newline>            <td>61.2</td>\<newline>            <td>3</td>\<newline>            <td class="action-col"><button class="remove-btn">''
       @ [CHR 0xE2, CHR 0x9D, CHR 0x8C] @ ''</button></td>\<newline>        '')\<close>
proof -
  have m: "text_of (JNum ''1.5'') ''1.5''" "text_of (JNum ''0'') ''0''"
    "text_of (JNum ''0.1'') ''0.1''" "text_of (JNum ''23.8'') ''23.8''"
    "text_of (JNum ''1.1'') ''1.1''" "text_of (JNum ''-12.5'') ''-12.5''"
    "text_of (JNum ''55'') ''55''" "text_of (JNum ''174'') ''174''"
    "text_of (JStr ''N/A'') ''N/A''" "text_of (JNum ''61.2'') ''61.2''"
    "text_of (JNum ''3'') ''3''"
    by (simp_all add: text_of_def)
  have n: "text_of (JStr ''a&b.csv'') ''a&b.csv''"
    "text_of (JStr ''javascript:alert(1)'') ''javascript:alert(1)''"
    "text_of (JStr ''<img src=x onerror=alert(1)>'') ''<img src=x onerror=alert(1)>''"
    by (simp_all add: text_of_def)
  have a: \<open>tr_innerHTML linked_item = Some (''\<newline>            <td><a href="javascript:alert(1)" target="_blank">a&b.csv</a></td>\<newline>            <td>1.5</td>\<newline>            <td>0</td>\<newline>            <td>0.1</td>\<newline>            <td>23.8</td>\<newline>            <td>1.1</td>\<newline>            <td>-12.5</td>\<newline>            <td>55</td>\<newline>            <td>174</td>\<newline>            <td>N/A</td>\<newline>            <td>61.2</td>\<newline>            <td>3</td>\<newline>            <td class="action-col"><button class="remove-btn">''
       @ [CHR 0xE2, CHR 0x9D, CHR 0x8C] @ ''</button></td>\<newline>        '')\<close>
    using row_html_is_raw_interpolation [of linked_item "''a&b.csv''" "''javascript:alert(1)''"
        "''1.5''" "''0''" "''0.1''" "''23.8''" "''1.1''" "''-12.5''" "''55''" "''174''"
        "''N/A''" "''61.2''" "''3''", OF _ _ _ _ _ _ _ _ _ _ _ _ _ refl refl] m n
    by (simp add: linked_item_def)
  have b: \<open>tr_innerHTML markup_item = Some (''\<newline>            <td><img src=x onerror=alert(1)></td>\<newline>            <td>1.5</td>\<newline>            <td>0</td>\<newline>            <td>0.1</td>\<newline>            <td>23.8</td>\<newline>            <td>1.1</td>\<newline>            <td>-12.5</td>\<newline>            <td>55</td>\<newline>            <td>174</td>\<newline>            <td>N/A</td>\<newline>            <td>61.2</td>\<newline>            <td>3</td>\<newline>            <td class="action-col"><button class="remove-btn">''
       @ [CHR 0xE2, CHR 0x9D, CHR 0x8C] @ ''</button></td>\<newline>        '')\<close>
    using row_html_is_raw_interpolation [of markup_item "''<img src=x onerror=alert(1)>''"
        "''N/A''"
        "''1.5''" "''0''" "''0.1''" "''23.8''" "''1.1''" "''-12.5''" "''55''" "''174''"
        "''N/A''" "''61.2''" "''3''", OF _ _ _ _ _ _ _ _ _ _ _ _ _ refl refl] m n
    by (simp add: markup_item_def linked_item_def)
  from a b show ?thesis by simp
qed

text \<open>
  C10 fails: with an error item whose name strips to nothing and a success item that has a
  field without string conversion, the success item gets no row and the alert of a failed
  upload is raised.
\<close>

theorem odd_success_counterexample:
  "rows (doUpload quiet odd_dir (init\<lparr>files := [a_csv]\<rparr>)) = []
   \<and> alerts (doUpload quiet odd_dir (init\<lparr>files := [a_csv]\<rparr>)) = [upload_failed]"
  by (simp add: doUpload_def doUpload_settle_def doUpload_send_def upload_try_def odd_dir_def
        sample_errors appendResults_def odd_item_row alert_def init_def)

text \<open>
  C10, amended. For a parsed success response with at least one error item, where the name
  of every error item is a string that is empty once the path is stripped and every
  success item gives a row: the script raises no alert (the only alerts are what
  DataTables reports for the new rows), the queue is cleared and the rows of the success
  items are appended, one each.
\<close>

theorem empty_names_no_alert:
  assumes "files s \<noteq> []" and "fetch (files s) = Response res" and "ok res"
    and "json res = Results (map Some rs)"
    and "map tr_innerHTML (filter (\<lambda>r. \<not> truthy (error r)) rs) = map Some hs"
    and "map file_name (filter (\<lambda>r. truthy (error r)) rs) = map JStr ns"
    and "ns \<noteq> []"
    and "\<forall>n\<in>set ns. pop (split n) = []"
  shows "alerts (doUpload dt fetch s) = alerts s @ append_reports dt (rows s) hs
         \<and> files (doUpload dt fetch s) = []
         \<and> rows (doUpload dt fetch s) = rows s @ hs
         \<and> length hs = length (filter (\<lambda>r. \<not> truthy (error r)) rs)"
proof -
  let ?failed = "new_Set (map (\<lambda>n. pop (split n)) ns)"
  have m: "map (\<lambda>n. pop (split n)) ns = map (\<lambda>n. []) ns"
    using assms(8) by simp
  have "set (map (\<lambda>n. [] :: string) ns) = {[]}"
    using assms(7) by (cases ns) auto
  with m have "set ?failed = {[]}" by (simp only: new_Set_set)
  moreover have "distinct ?failed" by (rule new_Set_distinct)
  ultimately have f: "?failed = [[]]" by (rule distinct_singleton [rotated])
  have "join ''\<newline>'' ?failed = []" by (simp only: f join.simps)
  then have a: "alerts (doUpload dt fetch s) = alerts s @ append_reports dt (rows s) hs"
    using doUpload_parsed_alerts [where fetch = fetch and s = s, OF assms(1-7)] by simp
  have r: "rows (doUpload dt fetch s) = rows s @ hs"
    using doUpload_parsed_rows [where fetch = fetch and s = s, OF assms(1-5)] .
  have l: "length hs = length (filter (\<lambda>r. \<not> truthy (error r)) rs)"
    using assms(5) by (metis length_map)
  have q: "files (doUpload dt fetch s) = []" by (rule doUpload_files)
  from a q r l show ?thesis by simp
qed

text \<open>
  C10 amended, at a response of one success item and the error item
  \<^verbatim>\<open>uploads/\<close>.
\<close>

theorem empty_names_no_alert_witness:
  "alerts (doUpload quiet mixed_dir (init\<lparr>files := [a_csv]\<rparr>)) = []
   \<and> files (doUpload quiet mixed_dir (init\<lparr>files := [a_csv]\<rparr>)) = []
   \<and> map Some (rows (doUpload quiet mixed_dir (init\<lparr>files := [a_csv]\<rparr>)))
       = [tr_innerHTML ok_item]"
proof -
  let ?s = "init\<lparr>files := [a_csv]\<rparr>"
  let ?res = "\<lparr>ok = True, status = 200, json = Results [Some ok_item, Some dir_item]\<rparr>"
  obtain h where h: "tr_innerHTML ok_item = Some h" using ok_item_row by blast
  have h1: "files ?s \<noteq> []" by simp
  have h2: "mixed_dir (files ?s) = Response ?res" by (simp add: mixed_dir_def)
  have h3: "ok ?res" by simp
  have h4: "json ?res = Results (map Some [ok_item, dir_item])" by simp
  have h5: "map tr_innerHTML (filter (\<lambda>r. \<not> truthy (error r)) [ok_item, dir_item])
              = map Some [h]"
    by (simp add: sample_errors h)
  have h6: "map file_name (filter (\<lambda>r. truthy (error r)) [ok_item, dir_item])
              = map JStr [''uploads/'']"
    by (simp add: sample_errors) (simp add: dir_item_def blank_def)
  have h7: "[''uploads/''] \<noteq> []" by simp
  have h8: "\<forall>n\<in>set [''uploads/'']. pop (split n) = []"
    by (simp add: pop_def isSep_def)
  show ?thesis
    using empty_names_no_alert [where fetch = mixed_dir and s = ?s and dt = quiet,
        OF h1 h2 h3 h4 h5 h6 h7 h8] h
    by (simp add: init_def append_reports_quiet)
qed

end
